theory Spec2Isabelle
  imports Complex_Main "HOL-Library.Sublist"
begin

section \<open>Data model (types/index.ts)\<close>

text \<open>
  JavaScript numbers that hold counts, attempt numbers and HTTP status codes are modelled
  as unbounded \<open>nat\<close>/\<open>int\<close>; every value the code computes from them here stays far
  below \<open>2^53\<close> for the inputs considered, where IEEE doubles are exact. Optional
  fields (\<open>error?\<close>, \<open>skipped?\<close>, \<open>filePath?\<close>) are \<open>option\<close>s, \<open>None\<close> standing for
  \<open>undefined\<close>.
\<close>

record ProcessingResult =
  address :: string
  success :: bool
  error :: "string option"
  skipped :: "bool option"
  filePath :: "string option"

record BatchSummary =
  total :: nat
  successful :: nat
  failed :: nat
  skipped_bs :: nat
  errors :: "(string \<times> string) list"

text \<open>JavaScript truthiness of an optional string and of an optional boolean.\<close>

fun truthy_str :: "string option \<Rightarrow> bool" where
  "truthy_str None = False"
| "truthy_str (Some s) = (s \<noteq> [])"

fun truthy_bool :: "bool option \<Rightarrow> bool" where
  "truthy_bool None = False"
| "truthy_bool (Some b) = b"

section \<open>IndexerService.compileBatchSummary\<close>

text \<open>The body of the \<open>for (const result of results)\<close> loop, on the summary built so far.\<close>

definition summary_step :: "BatchSummary \<Rightarrow> ProcessingResult \<Rightarrow> BatchSummary" where
  "summary_step s r =
     (if success r then
        (if truthy_bool (skipped r) then s\<lparr>skipped_bs := skipped_bs s + 1\<rparr>
         else s\<lparr>successful := successful s + 1\<rparr>)
      else
        (let s' = s\<lparr>failed := failed s + 1\<rparr> in
         if truthy_str (error r) then s'\<lparr>errors := errors s' @ [(address r, the (error r))]\<rparr>
         else s'))"

definition compileBatchSummary :: "ProcessingResult list \<Rightarrow> BatchSummary" where
  "compileBatchSummary results =
     foldl summary_step
       \<lparr>total = length results, successful = 0, failed = 0, skipped_bs = 0, errors = []\<rparr>
       results"

section \<open>directoryStructure: calculateOptimalDirectoryLevels\<close>

definition MAX_FILES_PER_DIRECTORY :: nat where "MAX_FILES_PER_DIRECTORY = 1000"
definition HASH_LENGTH :: nat where "HASH_LENGTH = 2"
definition MIN_DIRECTORY_LEVELS :: nat where "MIN_DIRECTORY_LEVELS = 2"
definition MAX_DIRECTORY_LEVELS :: nat where "MAX_DIRECTORY_LEVELS = 6"

text \<open>\<open>const foldersPerLevel = Math.pow(256, DIRECTORY_CONSTANTS.HASH_LENGTH)\<close>\<close>

definition foldersPerLevel :: nat where
  "foldersPerLevel = 256 ^ HASH_LENGTH"

text \<open>
  The \<open>while\<close> loop on the pair \<open>(requiredLevels, totalFolders)\<close>. The quotient
  \<open>expectedFileCount / totalFolders\<close> is a division of doubles by a power of two, which is
  exact; it is taken in the rationals.
\<close>

function levels_loop :: "nat \<Rightarrow> nat \<Rightarrow> nat \<Rightarrow> nat" where
  "levels_loop expectedFileCount requiredLevels totalFolders =
     (if (of_nat expectedFileCount :: rat) / of_nat totalFolders > of_nat MAX_FILES_PER_DIRECTORY
         \<and> requiredLevels < MAX_DIRECTORY_LEVELS
      then levels_loop expectedFileCount (requiredLevels + 1)
             (foldersPerLevel ^ (requiredLevels + 1))
      else requiredLevels)"
  by pat_completeness auto
termination
  by (relation "measure (\<lambda>(n, l, t). MAX_DIRECTORY_LEVELS - l)") auto

definition calculateOptimalDirectoryLevels :: "nat \<Rightarrow> nat" where
  "calculateOptimalDirectoryLevels expectedFileCount =
     min (levels_loop expectedFileCount MIN_DIRECTORY_LEVELS
            (foldersPerLevel ^ MIN_DIRECTORY_LEVELS))
         MAX_DIRECTORY_LEVELS"

text \<open>
  The depth the specification describes, for comparison with the code: the smallest
  depth in \<open>[2,6]\<close> with \<open>n / 256^depth \<le> 1000\<close>, and 6 when no depth in the range
  satisfies the bound.
\<close>

definition optimalDepth_spec :: "nat \<Rightarrow> nat" where
  "optimalDepth_spec n =
     (case filter (\<lambda>d. (of_nat n :: rat) / 256 ^ d \<le> 1000) [2, 3, 4, 5, 6] of
        [] \<Rightarrow> 6
      | d # _ \<Rightarrow> d)"


section \<open>JavaScript primitives used by the clients\<close>

text \<open>
  Strings are lists of 8-bit characters standing for the code units below 256. \<open>a || b\<close>
  on optional strings yields \<open>a\<close> when it is truthy (present and non-empty) and \<open>b\<close>
  otherwise.
\<close>

definition js_or :: "string option \<Rightarrow> string option \<Rightarrow> string option" where
  "js_or a b = (if truthy_str a then a else b)"

definition js_or_else :: "string option \<Rightarrow> string \<Rightarrow> string" where
  "js_or_else a d = (case a of None \<Rightarrow> d | Some s \<Rightarrow> if s \<noteq> [] then s else d)"

definition js_whitespace :: "char \<Rightarrow> bool" where
  "js_whitespace c = (c \<in> set [CHR 0x09, CHR 0x0A, CHR 0x0B, CHR 0x0C, CHR 0x0D, CHR 0x20, CHR 0xA0])"

definition is_digit :: "char \<Rightarrow> bool" where
  "is_digit c = (c \<in> set ''0123456789'')"

definition digit_value :: "char \<Rightarrow> int" where
  "digit_value c = int (of_char c) - 48"

definition decimal_value :: "string \<Rightarrow> int" where
  "decimal_value ds = foldl (\<lambda>acc c. acc * 10 + digit_value c) 0 ds"

text \<open>
  \<open>parseInt(s, 10)\<close>: leading white space is skipped, one sign is read, then the longest
  run of decimal digits; \<open>None\<close> is \<open>NaN\<close> (no digit found).
\<close>

definition parseInt10 :: "string \<Rightarrow> int option" where
  "parseInt10 s =
     (let S = dropWhile js_whitespace s;
          sign = (case S of c # _ \<Rightarrow> if c = CHR ''-'' then - 1 else (1 :: int) | [] \<Rightarrow> 1);
          S' = (case S of c # r \<Rightarrow> if c = CHR ''-'' \<or> c = CHR ''+'' then r else S | [] \<Rightarrow> S);
          Z = takeWhile is_digit S'
      in if Z = [] then None else Some (sign * decimal_value Z))"

text \<open>Decimal rendering of an integer, as a template literal \<open>${status}\<close> prints it.\<close>

definition digit_char :: "nat \<Rightarrow> char" where
  "digit_char n = char_of (48 + n)"

function show_nat :: "nat \<Rightarrow> string" where
  "show_nat n = (if n < 10 then [digit_char n] else show_nat (n div 10) @ [digit_char (n mod 10)])"
  by pat_completeness auto
termination
  by (relation "measure id") auto

declare show_nat.simps [simp del]

definition show_int :: "int \<Rightarrow> string" where
  "show_int i = (if i < 0 then CHR ''-'' # show_nat (nat (- i)) else show_nat (nat i))"

section \<open>Configuration and the clients' error handlers\<close>

text \<open>The paths and the numeric settings of \<open>IndexerConfig\<close>.\<close>

record IndexerConfig =
  cursorFilePath :: string
  dataDirectory :: string
  maxConcurrentRequests :: nat
  requestDelayMs :: int
  accountsPerPage :: nat
  maxRetries :: nat
  retryDelayMs :: int

text \<open>The value \<open>handleError\<close> returns: \<open>{ error, shouldRetry, delay }\<close>.\<close>

record HandledError =
  handled_error :: string
  shouldRetry :: bool
  delay :: int

text \<open>\<open>Math.min(this.config.retryDelayMs * Math.pow(2, attempt), 60000)\<close>\<close>

definition exponential_backoff :: "IndexerConfig \<Rightarrow> nat \<Rightarrow> int" where
  "exponential_backoff config attempt = min (retryDelayMs config * 2 ^ attempt) 60000"

text \<open>
  The delay of the 429 branch, the same text in both clients: a truthy \<open>Retry-After\<close> that
  \<open>parseInt\<close> reads as a number gives that many seconds in milliseconds; otherwise the
  capped exponential back-off.
\<close>

definition rateLimitDelay :: "IndexerConfig \<Rightarrow> string option \<Rightarrow> nat \<Rightarrow> int" where
  "rateLimitDelay config retryAfter attempt =
     (if truthy_str retryAfter then
        (case parseInt10 (the retryAfter) of
           Some retryAfterSeconds \<Rightarrow> retryAfterSeconds * 1000
         | None \<Rightarrow> exponential_backoff config attempt)
      else exponential_backoff config attempt)"

subsection \<open>RestClient.handleError\<close>

record ApiError =
  api_error :: "string option"
  api_message :: "string option"

record AxiosResponse =
  status :: int
  data :: "ApiError option"
  headers :: "string \<rightharpoonup> string"
  statusText :: string

text \<open>
  What \<open>inspectContract\<close> may catch: an Axios error with its optional response, whether a
  request was made, and its message; or anything else, with the text
  \<open>error instanceof Error ? error.message : String(error)\<close>.
\<close>

datatype RestThrown =
    AxiosError "AxiosResponse option" bool string
  | NonAxiosError string

fun RestClient_handleError :: "IndexerConfig \<Rightarrow> RestThrown \<Rightarrow> nat \<Rightarrow> HandledError" where
  "RestClient_handleError config (AxiosError (Some response) hasRequest msg) attempt =
     (let errorMessage =
            js_or_else (case data response of None \<Rightarrow> None | Some d \<Rightarrow> api_error d)
              (js_or_else (case data response of None \<Rightarrow> None | Some d \<Rightarrow> api_message d)
                 (''HTTP '' @ show_int (status response)))
      in if status response = 429 then
           (let retryAfter = js_or (headers response ''retry-after'')
                                   (headers response ''Retry-After'')
            in \<lparr>handled_error = ''Rate limit exceeded ('' @ show_int (status response) @ ''): ''
                                   @ errorMessage,
                 shouldRetry = True,
                 delay = rateLimitDelay config retryAfter attempt\<rparr>)
         else
           \<lparr>handled_error = ''API error ('' @ show_int (status response) @ ''): '' @ errorMessage,
            shouldRetry = True,
            delay = retryDelayMs config * int attempt\<rparr>)"
| "RestClient_handleError config (AxiosError None True msg) attempt =
     \<lparr>handled_error = ''Network error: '' @ msg,
      shouldRetry = True,
      delay = retryDelayMs config * int attempt\<rparr>"
| "RestClient_handleError config (AxiosError None False msg) attempt =
     \<lparr>handled_error = ''Unknown error: '' @ msg, shouldRetry = False, delay = 0\<rparr>"
| "RestClient_handleError config (NonAxiosError msg) attempt =
     \<lparr>handled_error = ''Unknown error: '' @ msg, shouldRetry = False, delay = 0\<rparr>"

subsection \<open>GraphQLClient.handleError\<close>

text \<open>
  graphql-request fills \<open>error.response.headers\<close> of a \<open>ClientError\<close> with the \<open>Headers\<close>
  object of the fetch response. The fields of such an object are read with its \<open>get\<close>
  method; they are not properties of the object, so indexing it with a header name, as
  \<open>headers['retry-after']\<close> does, yields \<open>undefined\<close> whatever the response carried.
\<close>

datatype FetchHeaders = FetchHeaders "string \<rightharpoonup> string"

fun headers_get :: "FetchHeaders \<Rightarrow> string \<Rightarrow> string option" where
  "headers_get (FetchHeaders fieldmap) name = fieldmap name"

fun headers_index :: "FetchHeaders \<Rightarrow> string \<Rightarrow> string option" where
  "headers_index (FetchHeaders fieldmap) name = None"

text \<open>
  A \<open>ClientError\<close> with \<open>error.response?.status\<close>, \<open>error.response?.headers\<close> and its
  message; or any other thrown value with its text.
\<close>

datatype GraphQLThrown =
    ClientError "int option" "FetchHeaders option" string
  | NonClientError string

fun GraphQLClient_handleError :: "IndexerConfig \<Rightarrow> GraphQLThrown \<Rightarrow> nat \<Rightarrow> HandledError" where
  "GraphQLClient_handleError config (ClientError st hdrs msg) attempt =
     (if st = Some 429 then
        (let retryAfter =
               js_or (case hdrs of None \<Rightarrow> None | Some h \<Rightarrow> headers_index h ''retry-after'')
                     (case hdrs of None \<Rightarrow> None | Some h \<Rightarrow> headers_index h ''Retry-After'')
         in \<lparr>handled_error = ''GraphQL rate limit exceeded ('' @ show_int 429 @ ''): '' @ msg,
              shouldRetry = True,
              delay = rateLimitDelay config retryAfter attempt\<rparr>)
      else
        \<lparr>handled_error = ''GraphQL request failed: '' @ msg,
         shouldRetry = True,
         delay = retryDelayMs config * int attempt\<rparr>)"
| "GraphQLClient_handleError config (NonClientError msg) attempt =
     \<lparr>handled_error = ''GraphQL request failed: '' @ msg, shouldRetry = False, delay = 0\<rparr>"

section \<open>Library functions taken as parameters\<close>

text \<open>
  The code calls Node's \<open>crypto\<close>, \<open>path\<close>, \<open>JSON\<close> and \<open>RegExp\<close>. They are not part
  of the repository and are taken as parameters:
  \<^item> \<open>md5_hex s\<close> is \<open>crypto.createHash('md5').update(s).digest('hex')\<close>;
  \<^item> \<open>path_join\<close> and \<open>path_dirname\<close> are \<open>path.join\<close> and \<open>path.dirname\<close>;
  \<^item> \<open>JSON_stringify d\<close> is \<open>JSON.stringify(d, null, 2)\<close> on a payload of type \<open>'d\<close>;
  \<^item> \<open>RegExp_new p\<close> is \<open>new RegExp(p)\<close>: \<open>Inl\<close> with the message of the
    \<open>SyntaxError\<close> it throws on an invalid pattern, or \<open>Inr\<close> with the \<open>test\<close> method of
    the regular expression it returns.
\<close>

record 'd Platform =
  md5_hex :: "string \<Rightarrow> string"
  path_join :: "string list \<Rightarrow> string"
  path_dirname :: "string \<Rightarrow> string"
  JSON_stringify :: "'d \<Rightarrow> string"
  RegExp_new :: "string \<Rightarrow> string + (string \<Rightarrow> bool)"

section \<open>AddressFilter (utils/addressFilter.ts)\<close>

record FilterResult =
  shouldProcess :: bool
  skipReason :: "string option"

record FilterStats =
  stats_total :: nat
  stats_processed :: nat
  stats_skipped :: nat
  skipReasons :: "string \<rightharpoonup> nat"

record AddressFilter =
  customSkipPatterns :: "string list"
  stats :: FilterStats

definition zeroCount :: "string \<Rightarrow> nat" where
  "zeroCount hash = length (filter (\<lambda>c. c = CHR ''0'') hash)"

definition is_hex_lower :: "char \<Rightarrow> bool" where
  "is_hex_lower c = (c \<in> set ''0123456789abcdef'')"

text \<open>The seven regular expressions of \<open>systemPatterns\<close>, written out on the string.\<close>

definition pat_zeros_start20 :: "string \<Rightarrow> bool" where
  \<comment> \<open>\<open>/^0{20,}/\<close>\<close>
  "pat_zeros_start20 h = (take 20 h = replicate 20 CHR ''0'')"

definition pat_zeros_start23 :: "string \<Rightarrow> bool" where
  \<comment> \<open>\<open>/^00000000000000000000000/\<close> (23 zeros)\<close>
  "pat_zeros_start23 h = (take 23 h = replicate 23 CHR ''0'')"

definition pat_f_start13 :: "string \<Rightarrow> bool" where
  \<comment> \<open>\<open>/^fffffffffffff/\<close> (13 times f)\<close>
  "pat_f_start13 h = (take 13 h = replicate 13 CHR ''f'')"

definition pat_f_end11 :: "string \<Rightarrow> bool" where
  \<comment> \<open>\<open>/fffffffffff$/\<close> (11 times f)\<close>
  "pat_f_end11 h = (11 \<le> length h \<and> drop (length h - 11) h = replicate 11 CHR ''f'')"

definition pat_hex_then_zeros :: "string \<Rightarrow> bool" where
  \<comment> \<open>\<open>/^[0-9a-f]{10,}0{20,}/\<close>: some \<open>j \<ge> 10\<close> hex digits from the start, then 20 zeros\<close>
  "pat_hex_then_zeros h =
     list_ex (\<lambda>j. 10 \<le> j \<and> list_all is_hex_lower (take j h)
                  \<and> j + 20 \<le> length h \<and> take 20 (drop j h) = replicate 20 CHR ''0'')
       [0..<Suc (length h)]"

definition pat_zeros_then_hex_end :: "string \<Rightarrow> bool" where
  \<comment> \<open>\<open>/0{15,}[0-9a-f]{5,}$/\<close>: somewhere 15 zeros, then at least 5 hex digits up to the end\<close>
  "pat_zeros_then_hex_end h =
     list_ex (\<lambda>i. i + 15 \<le> length h \<and> take 15 (drop i h) = replicate 15 CHR ''0''
                  \<and> 5 \<le> length (drop (i + 15) h) \<and> list_all is_hex_lower (drop (i + 15) h))
       [0..<Suc (length h)]"

definition pat_zero_prefix_id :: "string \<Rightarrow> bool" where
  \<comment> \<open>\<open>/^0000000000000000000000000[0-9a-f]{10,}$/\<close> (25 zeros, then 10 or more hex digits)\<close>
  "pat_zero_prefix_id h =
     (take 25 h = replicate 25 CHR ''0'' \<and> 10 \<le> length (drop 25 h)
      \<and> list_all is_hex_lower (drop 25 h))"

definition systemPatterns :: "(string \<Rightarrow> bool) list" where
  "systemPatterns =
     [pat_zeros_start20, pat_zeros_start23, pat_f_start13, pat_f_end11,
      pat_hex_then_zeros, pat_zeros_then_hex_end, pat_zero_prefix_id]"

text \<open>
  \<open>hash.match(/.{8}/g) || []\<close>: the successive non-overlapping runs of 8 characters none
  of which is a line terminator; where no such run starts, the scan moves on by one.
\<close>

definition line_terminator :: "char \<Rightarrow> bool" where
  "line_terminator c = (c = CHR 0x0A \<or> c = CHR 0x0D)"

function chunks8 :: "string \<Rightarrow> string list" where
  "chunks8 s =
     (if length s < 8 then []
      else if list_all (\<lambda>c. \<not> line_terminator c) (take 8 s) then take 8 s # chunks8 (drop 8 s)
      else chunks8 (tl s))"
  by pat_completeness auto
termination
  by (relation "measure length") auto

declare chunks8.simps [simp del]

text \<open>
  The ratios \<open>zeroCount / hash.length\<close> are compared in the rationals. With
  \<open>hash.length = 64\<close> no multiple of \<open>1/64\<close> lies between \<open>0.55\<close> and the double nearest
  to it, and a quotient of two small integers is above the double nearest to \<open>0.8\<close> or
  \<open>0.75\<close> exactly when it is above \<open>4/5\<close> or \<open>3/4\<close>; an empty hash gives \<open>NaN\<close>, for
  which every comparison is false, as it is for the rational \<open>0\<close>.
\<close>

definition zeroPercentage :: "string \<Rightarrow> rat" where
  "zeroPercentage hash = of_nat (zeroCount hash) / of_nat (length hash)"

definition isMasterchainSystemAddress :: "string \<Rightarrow> bool" where
  "isMasterchainSystemAddress rawAddress =
     (if prefix ''-2:'' rawAddress then True
      else if \<not> prefix ''-1:'' rawAddress then False
      else
        (let hash = drop 3 rawAddress in
         if length hash \<noteq> 64 then True
         else if zeroPercentage hash > 55 / 100 then True
         else if list_ex (\<lambda>pattern. pattern hash) systemPatterns then True
         else
           (let chunks = chunks8 hash in
            if 8 \<le> length chunks \<and> length (remdups chunks) \<le> 2 then True else False)))"

text \<open>\<open>rawAddress.split(':')\<close>\<close>

fun split_colon :: "string \<Rightarrow> string list" where
  "split_colon [] = [[]]"
| "split_colon (c # cs) =
     (if c = CHR '':'' then [] # split_colon cs
      else (case split_colon cs of p # ps \<Rightarrow> (c # p) # ps | [] \<Rightarrow> [[c]]))"

definition isZeroHeavyAddress :: "string \<Rightarrow> bool" where
  "isZeroHeavyAddress rawAddress =
     (case split_colon rawAddress of
        [workchain, hash] \<Rightarrow>
          (if workchain = ''-1'' \<or> workchain = ''-2'' then zeroPercentage hash > 8 / 10
           else zeroPercentage hash > 75 / 100)
      | _ \<Rightarrow> False)"

definition isShortAddress :: "string \<Rightarrow> bool" where
  "isShortAddress rawAddress = (length rawAddress < 10)"

text \<open>
  \<open>matchesPattern\<close>: the body of the \<open>try\<close> block, with the \<open>SyntaxError\<close> of
  \<open>new RegExp(pattern)\<close> as \<open>Inl\<close>, and the method itself, whose \<open>catch\<close> logs and
  returns \<open>false\<close>.
\<close>

definition matchesPattern_try :: "('d, 'x) Platform_scheme \<Rightarrow> string \<Rightarrow> string \<Rightarrow> string + bool" where
  "matchesPattern_try lib rawAddress pattern =
     (case RegExp_new lib pattern of
        Inl syntaxError \<Rightarrow> Inl syntaxError
      | Inr regex_test \<Rightarrow> Inr (regex_test rawAddress))"

definition matchesPattern :: "('d, 'x) Platform_scheme \<Rightarrow> string \<Rightarrow> string \<Rightarrow> bool" where
  "matchesPattern lib rawAddress pattern =
     (case matchesPattern_try lib rawAddress pattern of
        Inl err \<Rightarrow> False
      | Inr matched \<Rightarrow> matched)"

definition skipAddress :: "AddressFilter \<Rightarrow> string \<Rightarrow> FilterResult \<times> AddressFilter" where
  "skipAddress f reason =
     (\<lparr>shouldProcess = False, skipReason = Some reason\<rparr>,
      f\<lparr>stats := (stats f)\<lparr>
           stats_skipped := stats_skipped (stats f) + 1,
           skipReasons := (skipReasons (stats f))
             (reason \<mapsto> (case skipReasons (stats f) reason of None \<Rightarrow> 0 | Some n \<Rightarrow> n) + 1)\<rparr>\<rparr>)"

text \<open>
  \<open>shouldProcessAddress\<close> returns the decision and the filter with its counters updated.
  The \<open>for\<close> loop over the custom patterns returns at the first pattern that matches.
\<close>

definition shouldProcessAddress ::
  "('d, 'x) Platform_scheme \<Rightarrow> AddressFilter \<Rightarrow> string \<Rightarrow> FilterResult \<times> AddressFilter" where
  "shouldProcessAddress lib f0 rawAddress =
     (let f = f0\<lparr>stats := (stats f0)\<lparr>stats_total := stats_total (stats f0) + 1\<rparr>\<rparr> in
      if isMasterchainSystemAddress rawAddress then skipAddress f ''masterchain_system''
      else if isZeroHeavyAddress rawAddress then skipAddress f ''zero_heavy''
      else if isShortAddress rawAddress then skipAddress f ''too_short''
      else
        (case find (matchesPattern lib rawAddress) (customSkipPatterns f) of
           Some pattern \<Rightarrow> skipAddress f (''custom_pattern:'' @ pattern)
         | None \<Rightarrow>
             (\<lparr>shouldProcess = True, skipReason = None\<rparr>,
              f\<lparr>stats := (stats f)\<lparr>stats_processed := stats_processed (stats f) + 1\<rparr>\<rparr>)))"

section \<open>The file system\<close>

text \<open>
  The state of the disk as the code sees it through \<open>fs\<close> and \<open>fs-extra\<close>: the content of
  every file, the set of directories, and \<open>faulty\<close>, which gives for a path the
  \<open>code\<close> and the text \<open>String(error)\<close> of the I/O error that creating or writing there
  raises. \<open>journal\<close> records the primitive operations that took effect, in order; a crash
  leaves the disk as the operations before it made it.

  \<open>fs.writeFile\<close> is not one primitive: it opens the file, which creates or truncates it,
  and then writes the data. An error about the space left or the size of the file
  (\<open>ENOSPC\<close>, \<open>EFBIG\<close>, \<open>EDQUOT\<close>, \<open>EIO\<close>) is raised by the write, when the file has been
  opened; every other error is raised by the open.
\<close>

datatype fs_op =
    OpMkdir string
  | OpOpenTrunc string
  | OpWrite string string
  | OpRename string string

record FileSystem =
  files :: "string \<rightharpoonup> string"
  dirs :: "string set"
  faulty :: "string \<rightharpoonup> (string \<times> string)"
  journal :: "fs_op list"

fun op_target :: "fs_op \<Rightarrow> string" where
  "op_target (OpMkdir p) = p"
| "op_target (OpOpenTrunc p) = p"
| "op_target (OpWrite p c) = p"
| "op_target (OpRename p q) = q"

fun apply_op :: "FileSystem \<Rightarrow> fs_op \<Rightarrow> FileSystem" where
  "apply_op disk (OpMkdir p) = disk\<lparr>dirs := insert p (dirs disk)\<rparr>"
| "apply_op disk (OpOpenTrunc p) = disk\<lparr>files := (files disk)(p \<mapsto> [])\<rparr>"
| "apply_op disk (OpWrite p c) = disk\<lparr>files := (files disk)(p \<mapsto> c)\<rparr>"
| "apply_op disk (OpRename p q) = disk\<lparr>files := ((files disk)(q := files disk p))(p := None)\<rparr>"

definition write_error :: "string \<Rightarrow> bool" where
  "write_error code = (code \<in> set [''ENOSPC'', ''EFBIG'', ''EDQUOT'', ''EIO''])"

fun raises :: "fs_op \<Rightarrow> string \<Rightarrow> bool" where
  "raises (OpOpenTrunc p) code = (\<not> write_error code)"
| "raises (OpWrite p c) code = write_error code"
| "raises (OpMkdir p) code = True"
| "raises (OpRename p q) code = True"

definition perform :: "fs_op \<Rightarrow> FileSystem \<Rightarrow> (string \<times> string) + FileSystem" where
  "perform operation disk =
     (case faulty disk (op_target operation) of
        Some err \<Rightarrow>
          if raises operation (fst err) then Inl err
          else Inr ((apply_op disk operation)\<lparr>journal := journal disk @ [operation]\<rparr>)
      | None \<Rightarrow> Inr ((apply_op disk operation)\<lparr>journal := journal disk @ [operation]\<rparr>))"

text \<open>The disk a crash leaves when only the given operations have taken effect.\<close>

definition replay :: "fs_op list \<Rightarrow> FileSystem \<Rightarrow> FileSystem" where
  "replay ops disk = foldl apply_op disk ops"

text \<open>\<open>fs.mkdir(p, { recursive: true })\<close> and fs-extra's \<open>ensureDir(p)\<close>\<close>

definition fs_mkdir_recursive :: "FileSystem \<Rightarrow> string \<Rightarrow> (string \<times> string) + FileSystem" where
  "fs_mkdir_recursive disk p = perform (OpMkdir p) disk"

text \<open>
  \<open>fs.writeFile(p, content, 'utf-8')\<close>; an error leaves the disk as the operations before
  it made it.
\<close>

definition fs_writeFile ::
  "FileSystem \<Rightarrow> string \<Rightarrow> string \<Rightarrow> ((string \<times> string) + unit) \<times> FileSystem" where
  "fs_writeFile disk p content =
     (case perform (OpOpenTrunc p) disk of
        Inl err \<Rightarrow> (Inl err, disk)
      | Inr disk1 \<Rightarrow>
          (case perform (OpWrite p content) disk1 of
             Inl err \<Rightarrow> (Inl err, disk1)
           | Inr disk2 \<Rightarrow> (Inr (), disk2)))"

definition fs_pathExists :: "FileSystem \<Rightarrow> string \<Rightarrow> bool" where
  "fs_pathExists disk p = (files disk p \<noteq> None \<or> p \<in> dirs disk)"

definition fs_readFile :: "FileSystem \<Rightarrow> string \<Rightarrow> (string \<times> string) + string" where
  "fs_readFile disk p =
     (case files disk p of
        Some content \<Rightarrow> Inr content
      | None \<Rightarrow>
          (if p \<in> dirs disk
           then Inl (''EISDIR'', ''Error: EISDIR: illegal operation on a directory, read'')
           else Inl (''ENOENT'', ''Error: ENOENT: no such file or directory, open '' @ p)))"

section \<open>directoryStructure: paths\<close>

definition generateHash :: "('d, 'x) Platform_scheme \<Rightarrow> string \<Rightarrow> string" where
  "generateHash lib input = md5_hex lib input"

text \<open>\<open>address.replace(/^(EQ|UQ|kQ)/, '')\<close>\<close>

definition cleanAddress :: "string \<Rightarrow> string" where
  "cleanAddress addr =
     (if prefix ''EQ'' addr \<or> prefix ''UQ'' addr \<or> prefix ''kQ'' addr then drop 2 addr else addr)"

text \<open>\<open>s.substring(startIndex, endIndex)\<close> for \<open>startIndex \<le> endIndex\<close>\<close>

definition substring :: "string \<Rightarrow> nat \<Rightarrow> nat \<Rightarrow> string" where
  "substring s startIndex endIndex = take (endIndex - startIndex) (drop startIndex s)"

text \<open>\<open>directoryLevels || DIRECTORY_CONSTANTS.MIN_DIRECTORY_LEVELS\<close>\<close>

definition levels_or_default :: "nat option \<Rightarrow> nat" where
  "levels_or_default directoryLevels =
     (case directoryLevels of
        None \<Rightarrow> MIN_DIRECTORY_LEVELS
      | Some n \<Rightarrow> if n \<noteq> 0 then n else MIN_DIRECTORY_LEVELS)"

text \<open>The array \<open>directories\<close> that the \<open>for\<close> loop of \<open>getDirectoryPath\<close> fills.\<close>

definition directories :: "('d, 'x) Platform_scheme \<Rightarrow> string \<Rightarrow> nat option \<Rightarrow> string list" where
  "directories lib addr directoryLevels =
     (let hash = generateHash lib (cleanAddress addr);
          levels = levels_or_default directoryLevels
      in map (\<lambda>i. substring hash (i * HASH_LENGTH) (i * HASH_LENGTH + HASH_LENGTH)) [0..<levels])"

definition getDirectoryPath ::
  "('d, 'x) Platform_scheme \<Rightarrow> string \<Rightarrow> string \<Rightarrow> nat option \<Rightarrow> string" where
  "getDirectoryPath lib addr baseDir directoryLevels =
     path_join lib (baseDir # directories lib addr directoryLevels)"

definition is_alnum :: "char \<Rightarrow> bool" where
  "is_alnum c =
     (c \<in> set ''abcdefghijklmnopqrstuvwxyzABCDEFGHIJKLMNOPQRSTUVWXYZ0123456789'')"

text \<open>\<open>`inspect_${address.replace(/[^a-zA-Z0-9]/g, '_')}.json`\<close>\<close>

definition inspectFileName :: "string \<Rightarrow> string" where
  "inspectFileName addr =
     ''inspect_'' @ map (\<lambda>c. if is_alnum c then c else CHR ''_'') addr @ ''.json''"

definition getFilePath ::
  "('d, 'x) Platform_scheme \<Rightarrow> string \<Rightarrow> string \<Rightarrow> nat option \<Rightarrow> string" where
  "getFilePath lib addr baseDir directoryLevels =
     path_join lib [getDirectoryPath lib addr baseDir directoryLevels, inspectFileName addr]"

text \<open>\<open>ensureDirectoryExists\<close> lets an error with code \<open>EEXIST\<close> pass.\<close>

definition ensureDirectoryExists ::
  "FileSystem \<Rightarrow> string \<Rightarrow> (string \<times> string) + FileSystem" where
  "ensureDirectoryExists disk dirPath =
     (case fs_mkdir_recursive disk dirPath of
        Inl err \<Rightarrow> if fst err \<noteq> ''EEXIST'' then Inl err else Inr disk
      | Inr disk1 \<Rightarrow> Inr disk1)"

definition prepareFilePath ::
  "('d, 'x) Platform_scheme \<Rightarrow> FileSystem \<Rightarrow> string \<Rightarrow> string \<Rightarrow> nat option
     \<Rightarrow> ((string \<times> string) + string) \<times> FileSystem" where
  "prepareFilePath lib disk addr baseDir directoryLevels =
     (let dirPath = getDirectoryPath lib addr baseDir directoryLevels in
      case ensureDirectoryExists disk dirPath of
        Inl err \<Rightarrow> (Inl err, disk)
      | Inr disk1 \<Rightarrow> (Inr (path_join lib [dirPath, inspectFileName addr]), disk1))"

section \<open>fileUtils\<close>

subsection \<open>The cursor file\<close>

definition js_trim :: "string \<Rightarrow> string" where
  "js_trim s = rev (dropWhile js_whitespace (rev (dropWhile js_whitespace s)))"

text \<open>
  \<open>readCursor\<close>: \<open>Inr None\<close> is \<open>null\<close>; \<open>Inl\<close> carries the message of the \<open>Error\<close> the
  \<open>catch\<close> block throws.
\<close>

definition readCursor :: "FileSystem \<Rightarrow> string \<Rightarrow> string + string option" where
  "readCursor disk cursorFile =
     (if fs_pathExists disk cursorFile then
        (case fs_readFile disk cursorFile of
           Inl err \<Rightarrow> Inl (''Failed to read cursor file: '' @ snd err)
         | Inr cursor \<Rightarrow> Inr (if js_trim cursor \<noteq> [] then Some (js_trim cursor) else None))
      else Inr None)"

definition saveCursor ::
  "('d, 'x) Platform_scheme \<Rightarrow> FileSystem \<Rightarrow> string \<Rightarrow> string \<Rightarrow> (string + unit) \<times> FileSystem" where
  "saveCursor lib disk cursorFile cursor =
     (case fs_mkdir_recursive disk (path_dirname lib cursorFile) of
        Inl err \<Rightarrow> (Inl (''Failed to save cursor: '' @ snd err), disk)
      | Inr disk1 \<Rightarrow>
          (case fs_writeFile disk1 cursorFile cursor of
             (Inl err, disk2) \<Rightarrow> (Inl (''Failed to save cursor: '' @ snd err), disk2)
           | (Inr u, disk2) \<Rightarrow> (Inr (), disk2)))"

definition ensureDataDirectory :: "FileSystem \<Rightarrow> string \<Rightarrow> (string + unit) \<times> FileSystem" where
  "ensureDataDirectory disk dataDir =
     (case fs_mkdir_recursive disk dataDir of
        Inl err \<Rightarrow> (Inl (''Failed to create data directory: '' @ snd err), disk)
      | Inr disk1 \<Rightarrow> (Inr (), disk1))"

subsection \<open>The store with hierarchical directories\<close>

definition contractFileExists ::
  "('d, 'x) Platform_scheme \<Rightarrow> FileSystem \<Rightarrow> string \<Rightarrow> string \<Rightarrow> nat option \<Rightarrow> bool" where
  "contractFileExists lib disk dataDir rawAddr directoryLevels =
     fs_pathExists disk (getFilePath lib rawAddr dataDir directoryLevels)"

text \<open>
  \<open>saveContractData\<close> returns the path of the file, or (\<open>Inl\<close>) the message of the \<open>Error\<close> its
  \<open>catch\<close> block throws.
\<close>

definition saveContractData ::
  "('d, 'x) Platform_scheme \<Rightarrow> FileSystem \<Rightarrow> string \<Rightarrow> string \<Rightarrow> 'd \<Rightarrow> nat option
     \<Rightarrow> (string + string) \<times> FileSystem" where
  "saveContractData lib disk dataDir rawAddr payload directoryLevels =
     (case prepareFilePath lib disk rawAddr dataDir directoryLevels of
        (Inl err, disk1) \<Rightarrow>
          (Inl (''Failed to save contract data for '' @ rawAddr @ '': '' @ snd err), disk1)
      | (Inr target, disk1) \<Rightarrow>
          (case fs_writeFile disk1 target (JSON_stringify lib payload) of
             (Inl err, disk2) \<Rightarrow>
               (Inl (''Failed to save contract data for '' @ rawAddr @ '': '' @ snd err), disk2)
           | (Inr u, disk2) \<Rightarrow> (Inr target, disk2)))"

subsection \<open>The store with one flat directory (src/utils/fileUtils.ts)\<close>

text \<open>\<open>`inspect_${rawAddress.replace(/:/g, '_')}.json`\<close>\<close>

definition generateFileName :: "string \<Rightarrow> string" where
  "generateFileName rawAddr =
     ''inspect_'' @ map (\<lambda>c. if c = CHR '':'' then CHR ''_'' else c) rawAddr @ ''.json''"

definition contractFileExists_flat ::
  "('d, 'x) Platform_scheme \<Rightarrow> FileSystem \<Rightarrow> string \<Rightarrow> string \<Rightarrow> bool" where
  "contractFileExists_flat lib disk dataDir rawAddr =
     fs_pathExists disk (path_join lib [dataDir, generateFileName rawAddr])"

definition saveContractData_flat ::
  "('d, 'x) Platform_scheme \<Rightarrow> FileSystem \<Rightarrow> string \<Rightarrow> string \<Rightarrow> 'd
     \<Rightarrow> (string + string) \<times> FileSystem" where
  "saveContractData_flat lib disk dataDir rawAddr payload =
     (case fs_mkdir_recursive disk dataDir of
        Inl err \<Rightarrow>
          (Inl (''Failed to save contract data for '' @ rawAddr @ '': '' @ snd err), disk)
      | Inr disk1 \<Rightarrow>
          (let target = path_join lib [dataDir, generateFileName rawAddr] in
           case fs_writeFile disk1 target (JSON_stringify lib payload) of
             (Inl err, disk2) \<Rightarrow>
               (Inl (''Failed to save contract data for '' @ rawAddr @ '': '' @ snd err), disk2)
           | (Inr u, disk2) \<Rightarrow> (Inr target, disk2)))"

section \<open>IndexerService\<close>

record AccountNode =
  rawAddress :: string

record PageInfo =
  hasNextPage :: bool
  endCursor :: "string option"

text \<open>The object \<open>response.allAccounts\<close>.\<close>

record AllAccountsResponse =
  pageInfo :: PageInfo
  nodes :: "AccountNode list"

record IterationResult =
  summary :: BatchSummary
  hasNextPage_ir :: bool
  endCursor_ir :: "string option"

text \<open>
  What the two clients return to the service once their retries are over: the response,
  or (\<open>Inl\<close>) the message of the error they throw.
\<close>

record 'd Clients =
  fetchAccounts :: "nat \<Rightarrow> string option \<Rightarrow> string + AllAccountsResponse"
  inspectContract :: "string \<Rightarrow> string + 'd"

text \<open>
  The service runs in a world made of the disk, the address filter with its counters,
  and the scheduler: the list of the decisions the event loop will take, each naming the
  task that moves next (see \<open>run_batch\<close>). \<open>events\<close> records what happens, in order:
  every primitive disk operation that takes effect, and the return of every task of a
  batch with its number in the page and its result.
\<close>

datatype event =
    EvDisk fs_op
  | EvTaskDone nat ProcessingResult

record World =
  disk :: FileSystem
  addressFilter :: AddressFilter
  events :: "event list"
  scheduler :: "nat list"

fun disk_ops :: "event list \<Rightarrow> fs_op list" where
  "disk_ops [] = []"
| "disk_ops (EvDisk operation # es) = operation # disk_ops es"
| "disk_ops (EvTaskDone i r # es) = disk_ops es"

text \<open>
  The world after a call that left the disk as \<open>disk1\<close>: the operations that the call
  added to the journal are recorded as events.
\<close>

definition put_disk :: "World \<Rightarrow> FileSystem \<Rightarrow> World" where
  "put_disk w disk1 =
     w\<lparr>disk := disk1,
       events := events w @ map EvDisk (drop (length (journal (disk w))) (journal disk1))\<rparr>"

subsection \<open>processAccount, run without interruption\<close>

text \<open>
  The \<open>try\<close> block of \<open>processAccount\<close>: \<open>Inl\<close> carries
  \<open>error instanceof Error ? error.message : String(error)\<close> for whatever the block throws.
\<close>

definition processAccount_try ::
  "IndexerConfig \<Rightarrow> ('d, 'x) Platform_scheme \<Rightarrow> ('d, 'y) Clients_scheme \<Rightarrow> World \<Rightarrow> string
     \<Rightarrow> (string + ProcessingResult) \<times> World" where
  "processAccount_try config lib net w rawAddr =
     (case shouldProcessAddress lib (addressFilter w) rawAddr of
        (filterResult, filter1) \<Rightarrow>
          (let w1 = w\<lparr>addressFilter := filter1\<rparr> in
           if \<not> shouldProcess filterResult then
             (Inr \<lparr>address = rawAddr, success = True,
                   error = Some (''Filtered: '' @ (case skipReason filterResult of
                                                    Some reason \<Rightarrow> reason
                                                  | None \<Rightarrow> ''undefined'')),
                   skipped = Some True, filePath = None\<rparr>, w1)
           else if contractFileExists lib (disk w1) (dataDirectory config) rawAddr None then
             (Inr \<lparr>address = rawAddr, success = True, error = None,
                   skipped = Some True, filePath = None\<rparr>, w1)
           else
             (case inspectContract net rawAddr of
                Inl msg \<Rightarrow> (Inl msg, w1)
              | Inr contractData \<Rightarrow>
                  (case saveContractData lib (disk w1) (dataDirectory config) rawAddr
                          contractData None of
                     (Inl msg, disk1) \<Rightarrow> (Inl msg, put_disk w1 disk1)
                   | (Inr target, disk1) \<Rightarrow>
                       (Inr \<lparr>address = rawAddr, success = True, error = None,
                             skipped = None, filePath = Some target\<rparr>,
                        put_disk w1 disk1)))))"

text \<open>\<open>processAccount\<close>: the \<open>catch\<close> block turns what was thrown into a failed result.\<close>

definition processAccount ::
  "IndexerConfig \<Rightarrow> ('d, 'x) Platform_scheme \<Rightarrow> ('d, 'y) Clients_scheme \<Rightarrow> World \<Rightarrow> string
     \<Rightarrow> ProcessingResult \<times> World" where
  "processAccount config lib net w rawAddr =
     (case processAccount_try config lib net w rawAddr of
        (Inr r, w1) \<Rightarrow> (r, w1)
      | (Inl errorMessage, w1) \<Rightarrow>
          (\<lparr>address = rawAddr, success = False, error = Some errorMessage,
            skipped = None, filePath = None\<rparr>, w1))"

subsection \<open>processAccount as a task\<close>

text \<open>
  In a batch the calls of \<open>processAccount\<close> run as concurrent tasks. A task runs without
  interruption from one \<open>await\<close> to the next; while it waits, the other tasks move. The
  states of a task are the places where it waits:
  \<^item> \<open>Queued\<close>: in the queue of \<open>p-limit\<close>, not started;
  \<^item> \<open>AwaitPathExists\<close>: the filter has kept the address, \<open>fs.pathExists\<close> is pending;
  \<^item> \<open>AwaitInspect\<close>: \<open>restClient.inspectContract\<close> is pending;
  \<^item> \<open>AwaitMkdir\<close>: in \<open>saveContractData\<close>, the \<open>fs.mkdir\<close> of \<open>prepareFilePath\<close> is
    pending;
  \<^item> \<open>AwaitOpen\<close> and \<open>AwaitWrite\<close>: \<open>fs.writeFile\<close> is pending, before the file is
    opened and before the data is written;
  \<^item> \<open>Done\<close>: the task has returned its result.
  The three states of \<open>saveContractData\<close> carry the contract data that was fetched.
\<close>

datatype 'd task =
    Queued
  | AwaitPathExists
  | AwaitInspect
  | AwaitMkdir 'd
  | AwaitOpen 'd
  | AwaitWrite 'd
  | Done ProcessingResult

fun queued :: "'d task \<Rightarrow> bool" where
  "queued Queued = True"
| "queued t = False"

fun returned :: "'d task \<Rightarrow> bool" where
  "returned (Done r) = True"
| "returned t = False"

definition active :: "'d task \<Rightarrow> bool" where
  "active t = (\<not> queued t \<and> \<not> returned t)"

text \<open>The number of moves a task has left at most.\<close>

fun moves_left :: "'d task \<Rightarrow> nat" where
  "moves_left Queued = 6"
| "moves_left AwaitPathExists = 5"
| "moves_left AwaitInspect = 4"
| "moves_left (AwaitMkdir contractData) = 3"
| "moves_left (AwaitOpen contractData) = 2"
| "moves_left (AwaitWrite contractData) = 1"
| "moves_left (Done r) = 0"

text \<open>The result of the \<open>catch\<close> blocks of \<open>saveContractData\<close> and \<open>processAccount\<close>.\<close>

definition save_failed :: "string \<Rightarrow> string \<times> string \<Rightarrow> ProcessingResult" where
  "save_failed rawAddr err =
     \<lparr>address = rawAddr, success = False,
      error = Some (''Failed to save contract data for '' @ rawAddr @ '': '' @ snd err),
      skipped = None, filePath = None\<rparr>"

text \<open>
  One move of a task: the operation it waits for completes, and the task runs on to its
  next \<open>await\<close> or to its \<open>return\<close>.
\<close>

fun task_step ::
  "IndexerConfig \<Rightarrow> ('d, 'x) Platform_scheme \<Rightarrow> ('d, 'y) Clients_scheme \<Rightarrow> string \<Rightarrow> 'd task
     \<Rightarrow> World \<Rightarrow> 'd task \<times> World" where
  "task_step config lib net rawAddr Queued w =
     (case shouldProcessAddress lib (addressFilter w) rawAddr of
        (filterResult, filter1) \<Rightarrow>
          (if \<not> shouldProcess filterResult then
             (Done \<lparr>address = rawAddr, success = True,
                    error = Some (''Filtered: '' @ (case skipReason filterResult of
                                                     Some reason \<Rightarrow> reason
                                                   | None \<Rightarrow> ''undefined'')),
                    skipped = Some True, filePath = None\<rparr>,
              w\<lparr>addressFilter := filter1\<rparr>)
           else (AwaitPathExists, w\<lparr>addressFilter := filter1\<rparr>)))"
| "task_step config lib net rawAddr AwaitPathExists w =
     (if contractFileExists lib (disk w) (dataDirectory config) rawAddr None then
        (Done \<lparr>address = rawAddr, success = True, error = None,
               skipped = Some True, filePath = None\<rparr>, w)
      else (AwaitInspect, w))"
| "task_step config lib net rawAddr AwaitInspect w =
     (case inspectContract net rawAddr of
        Inl msg \<Rightarrow>
          (Done \<lparr>address = rawAddr, success = False, error = Some msg,
                 skipped = None, filePath = None\<rparr>, w)
      | Inr contractData \<Rightarrow> (AwaitMkdir contractData, w))"
| "task_step config lib net rawAddr (AwaitMkdir contractData) w =
     (case ensureDirectoryExists (disk w)
             (getDirectoryPath lib rawAddr (dataDirectory config) None) of
        Inl err \<Rightarrow> (Done (save_failed rawAddr err), w)
      | Inr disk1 \<Rightarrow> (AwaitOpen contractData, put_disk w disk1))"
| "task_step config lib net rawAddr (AwaitOpen contractData) w =
     (case perform (OpOpenTrunc (getFilePath lib rawAddr (dataDirectory config) None)) (disk w) of
        Inl err \<Rightarrow> (Done (save_failed rawAddr err), w)
      | Inr disk1 \<Rightarrow> (AwaitWrite contractData, put_disk w disk1))"
| "task_step config lib net rawAddr (AwaitWrite contractData) w =
     (case perform (OpWrite (getFilePath lib rawAddr (dataDirectory config) None)
                      (JSON_stringify lib contractData)) (disk w) of
        Inl err \<Rightarrow> (Done (save_failed rawAddr err), w)
      | Inr disk1 \<Rightarrow>
          (Done \<lparr>address = rawAddr, success = True, error = None, skipped = None,
                 filePath = Some (getFilePath lib rawAddr (dataDirectory config) None)\<rparr>,
           put_disk w disk1))"
| "task_step config lib net rawAddr (Done r) w = (Done r, w)"

subsection \<open>processAccountsBatch\<close>

text \<open>
  \<open>p-limit\<close> starts the queued tasks in the order of the page, and a task only while
  fewer than \<open>maxConcurrentRequests\<close> tasks have started and not returned. A task that
  has started and not returned can always move.
\<close>

definition can_move :: "nat \<Rightarrow> 'd task list \<Rightarrow> nat \<Rightarrow> bool" where
  "can_move limit ts i =
     (i < length ts
      \<and> (if queued (ts ! i)
         then list_all (\<lambda>t. \<not> queued t) (take i ts) \<and> length (filter active ts) < limit
         else \<not> returned (ts ! i)))"

text \<open>Task \<open>i\<close> moves; its return is recorded.\<close>

definition move ::
  "IndexerConfig \<Rightarrow> ('d, 'x) Platform_scheme \<Rightarrow> ('d, 'y) Clients_scheme \<Rightarrow> AccountNode list
     \<Rightarrow> nat \<Rightarrow> 'd task list \<Rightarrow> World \<Rightarrow> 'd task list \<times> World" where
  "move config lib net accounts i ts w =
     (case task_step config lib net (rawAddress (accounts ! i)) (ts ! i) w of
        (t, w1) \<Rightarrow>
          (ts[i := t],
           (case t of
              Done r \<Rightarrow> w1\<lparr>events := events w1 @ [EvTaskDone i r]\<rparr>
            | _ \<Rightarrow> w1)))"

text \<open>
  The tasks of a batch run until all have returned. The next task to move is the one
  the scheduler names; a decision that names a task that cannot move is dropped. When
  the scheduler has no decision left, the first task that can move moves. Every
  interleaving of the tasks is the run under some scheduler. While a task has not
  returned some task can move, unless \<open>maxConcurrentRequests\<close> is 0: \<open>pLimit\<close> throws on
  such a value when the service is constructed, and \<open>loadConfig\<close> refuses it, so the
  statements about a batch assume a limit of at least 1.
\<close>

function run_batch ::
  "IndexerConfig \<Rightarrow> ('d, 'x) Platform_scheme \<Rightarrow> ('d, 'y) Clients_scheme \<Rightarrow> AccountNode list
     \<Rightarrow> 'd task list \<Rightarrow> World \<Rightarrow> 'd task list \<times> World" where
  "run_batch config lib net accounts ts w =
     (if list_all returned ts then (ts, w)
      else
        (case scheduler w of
           i # decisions \<Rightarrow>
             (if can_move (maxConcurrentRequests config) ts i then
                (case move config lib net accounts i ts (w\<lparr>scheduler := decisions\<rparr>) of
                   (ts1, w1) \<Rightarrow> run_batch config lib net accounts ts1 w1)
              else run_batch config lib net accounts ts (w\<lparr>scheduler := decisions\<rparr>))
         | [] \<Rightarrow>
             (case find (can_move (maxConcurrentRequests config) ts) [0..<length ts] of
                Some i \<Rightarrow>
                  (case move config lib net accounts i ts w of
                     (ts1, w1) \<Rightarrow> run_batch config lib net accounts ts1 w1)
              | None \<Rightarrow> (ts, w))))"
  by pat_completeness auto

termination
proof -
  have dec: "sum_list (map moves_left ts1) + length (scheduler w1)
               < sum_list (map moves_left ts) + length (scheduler v)"
    if c: "can_move (maxConcurrentRequests config) ts i"
      and m: "(ts1, w1) = move config lib net accounts i ts v"
    for config :: IndexerConfig and lib :: "('d, 'x) Platform_scheme"
      and net :: "('d, 'y) Clients_scheme" and accounts :: "AccountNode list"
      and ts ts1 :: "'d task list" and v w1 :: World and i
  proof -
    obtain t w2 where
      st: "task_step config lib net (rawAddress (accounts ! i)) (ts ! i) v = (t, w2)"
      by (cases "task_step config lib net (rawAddress (accounts ! i)) (ts ! i) v")
    from c have i: "i < length ts" and nr: "\<not> returned (ts ! i)"
      by (auto simp: can_move_def split: if_splits elim: queued.elims)
    have "moves_left (fst (task_step config lib net a s u)) < moves_left s"
      if "\<not> returned s" for a s and u :: World
      using that by (cases s) (auto simp: put_disk_def split: prod.splits sum.splits if_splits)
    from this [OF nr] st have less: "moves_left t < moves_left (ts ! i)"
      by (metis fst_conv)
    have "scheduler (snd (task_step config lib net a s u)) = scheduler u"
      for a s and u :: World
      by (cases s) (auto simp: put_disk_def split: prod.splits sum.splits if_splits)
    from this [of "rawAddress (accounts ! i)" "ts ! i" v] st
    have sch: "scheduler w2 = scheduler v"
      by simp
    from m st have ts1: "ts1 = ts[i := t]" and "scheduler w1 = scheduler w2"
      by (auto simp: move_def split: task.splits)
    with sch have sch1: "scheduler w1 = scheduler v"
      by simp
    from i have "moves_left (ts ! i) \<in> set (map moves_left ts)"
      by simp
    then have "moves_left (ts ! i) \<le> sum_list (map moves_left ts)"
      by (simp add: member_le_sum_list)
    with i less have "sum_list (map moves_left (ts[i := t])) < sum_list (map moves_left ts)"
      by (simp add: sum_list_update map_update)
    with ts1 sch1 show ?thesis
      by simp
  qed
  show ?thesis
  proof (relation "measure (\<lambda>(config, lib, net, accounts, ts, w).
                     sum_list (map moves_left ts) + length (scheduler w))", goal_cases)
    case 1
    show ?case by simp
  next
    case (2 config lib net accounts ts w i ts1 w1)
    from 2(3) have "can_move (maxConcurrentRequests config) ts i"
      by (auto simp: find_Some_iff)
    from dec [OF this 2(4)] show ?case
      by simp
  next
    case (3 config lib net accounts ts w i decisions ts1 w1)
    from dec [OF 3(3) 3(4)] 3(2) show ?case
      by simp
  next
    case (4 config lib net accounts ts w i decisions)
    then show ?case
      by simp
  qed
qed

declare run_batch.simps [simp del]

text \<open>The results of the tasks that have returned, in the order of the page.\<close>

fun results_of :: "'d task list \<Rightarrow> ProcessingResult list" where
  "results_of [] = []"
| "results_of (Done r # ts) = r # results_of ts"
| "results_of (t # ts) = results_of ts"

text \<open>
  \<open>processAccountsBatch\<close>: one queued task for every account of the page;
  \<open>Promise.all\<close> gives their results in the order of the page once all have returned.
\<close>

definition processAccountsBatch ::
  "IndexerConfig \<Rightarrow> ('d, 'x) Platform_scheme \<Rightarrow> ('d, 'y) Clients_scheme \<Rightarrow> World
     \<Rightarrow> AccountNode list \<Rightarrow> ProcessingResult list \<times> World" where
  "processAccountsBatch config lib net w accounts =
     (case run_batch config lib net accounts (replicate (length accounts) Queued) w of
        (ts, w1) \<Rightarrow> (results_of ts, w1))"

subsection \<open>runIteration and runComplete\<close>

text \<open>
  \<open>runIteration\<close>: every \<open>await\<close> that can throw is a branch that returns \<open>Inl\<close> with
  the message and the world as it was left.
\<close>

definition runIteration ::
  "IndexerConfig \<Rightarrow> ('d, 'x) Platform_scheme \<Rightarrow> ('d, 'y) Clients_scheme \<Rightarrow> World
     \<Rightarrow> (string + IterationResult) \<times> World" where
  "runIteration config lib net w =
     (case ensureDataDirectory (disk w) (dataDirectory config) of
        (Inl msg, disk1) \<Rightarrow> (Inl msg, put_disk w disk1)
      | (Inr u, disk1) \<Rightarrow>
          (let w1 = put_disk w disk1 in
           case readCursor (disk w1) (cursorFilePath config) of
             Inl msg \<Rightarrow> (Inl msg, w1)
           | Inr cursor \<Rightarrow>
               (case fetchAccounts net (accountsPerPage config) cursor of
                  Inl msg \<Rightarrow> (Inl msg, w1)
                | Inr response \<Rightarrow>
                    (if length (nodes response) = 0 then
                       (Inr \<lparr>summary = \<lparr>total = 0, successful = 0, failed = 0, skipped_bs = 0,
                                        errors = []\<rparr>,
                             hasNextPage_ir = False, endCursor_ir = None\<rparr>, w1)
                     else
                       (case processAccountsBatch config lib net w1 (nodes response) of
                          (results, w2) \<Rightarrow>
                            (case (if truthy_str (endCursor (pageInfo response)) then
                                     (case saveCursor lib (disk w2) (cursorFilePath config)
                                             (the (endCursor (pageInfo response))) of
                                        (saved, disk3) \<Rightarrow> (saved, put_disk w2 disk3))
                                   else (Inr (), w2)) of
                               (Inl msg, w3) \<Rightarrow> (Inl msg, w3)
                             | (Inr u, w3) \<Rightarrow>
                                 (Inr \<lparr>summary = compileBatchSummary results,
                                       hasNextPage_ir = hasNextPage (pageInfo response),
                                       endCursor_ir = endCursor (pageInfo response)\<rparr>,
                                  w3)))))))"

text \<open>
  \<open>runComplete\<close>. Its \<open>while (hasNextPage)\<close> loop need not end, so it runs on fuel, one
  unit for each test of the loop condition. The outcome says how the loop was left and
  lists the result of every iteration that was run, in order.
\<close>

datatype loop_exit = LoopFinished | LoopThrew string | OutOfFuel

fun runComplete_loop ::
  "nat \<Rightarrow> IndexerConfig \<Rightarrow> ('d, 'x) Platform_scheme \<Rightarrow> ('d, 'y) Clients_scheme \<Rightarrow> bool
     \<Rightarrow> IterationResult list \<Rightarrow> World \<Rightarrow> (loop_exit \<times> IterationResult list) \<times> World" where
  "runComplete_loop 0 config lib net hasNext iterations w = ((OutOfFuel, iterations), w)"
| "runComplete_loop (Suc fuel) config lib net hasNext iterations w =
     (if \<not> hasNext then ((LoopFinished, iterations), w)
      else
        (case runIteration config lib net w of
           (Inl msg, w1) \<Rightarrow> ((LoopThrew msg, iterations), w1)
         | (Inr iteration, w1) \<Rightarrow>
             (case readCursor (disk w1) (cursorFilePath config) of
                Inl msg \<Rightarrow> ((LoopThrew msg, iterations @ [iteration]), w1)
              | Inr cursor \<Rightarrow>
                  runComplete_loop fuel config lib net
                    (if \<not> truthy_str cursor then False else hasNext)
                    (iterations @ [iteration]) w1)))"

definition runComplete ::
  "nat \<Rightarrow> IndexerConfig \<Rightarrow> ('d, 'x) Platform_scheme \<Rightarrow> ('d, 'y) Clients_scheme \<Rightarrow> World
     \<Rightarrow> (loop_exit \<times> IterationResult list) \<times> World" where
  "runComplete fuel config lib net w = runComplete_loop fuel config lib net True [] w"

section \<open>Concrete inputs\<close>

text \<open>The constructor of \<open>AddressFilter\<close>: the configured patterns and zeroed counters.\<close>

definition newAddressFilter :: "string list \<Rightarrow> AddressFilter" where
  "newAddressFilter patterns =
     \<lparr>customSkipPatterns = patterns,
      stats = \<lparr>stats_total = 0, stats_processed = 0, stats_skipped = 0,
               skipReasons = Map.empty\<rparr>\<rparr>"

text \<open>The defaults of \<open>loadConfig\<close>, with the two paths written without \<open>./\<close>.\<close>

definition example_config :: IndexerConfig where
  "example_config =
     \<lparr>cursorFilePath = ''cursor.txt'', dataDirectory = ''data'', maxConcurrentRequests = 4,
      requestDelayMs = 100, accountsPerPage = 100, maxRetries = 3, retryDelayMs = 1000\<rparr>"

text \<open>
  An instance of the library functions for the inputs used below: the MD5 digests of the
  strings that are hashed (any other string is given the digest of the empty
  string), \<open>path.join\<close> and \<open>path.dirname\<close> on relative paths that need no normalisation,
  \<open>JSON.stringify\<close> on the empty object, and \<open>new RegExp\<close> on the two patterns
  \<open>(\<close>, which is invalid, and \<open>^0:dead\<close>.
\<close>

definition example_md5 :: "string \<Rightarrow> string" where
  "example_md5 s =
     (case map_of
        [(''0:aaaaaaaaaaaa'', ''dced63afa1ac045871729c6e45be00f5''),
         (''0:bbbbbbbbbbbb'', ''13c9dfa839b6700d2d69c3997f10f762''),
         (''0:cccccccccccc'', ''579ce5167f8197feb94038ab722fab21''),
         (''CD39VS5jcptHL8vMjEXrzGaRcCVYto7HUn4bpAOg8xqB2N'', ''6a138e3a4408aad75dd4eaaa19731489''),
         (''EQCD39VS5jcptHL8vMjEXrzGaRcCVYto7HUn4bpAOg8xqB2N'',
          ''1b538ecd5a2cace15de9f8907c94d9bd'')] s of
        Some digest \<Rightarrow> digest
      | None \<Rightarrow> ''d41d8cd98f00b204e9800998ecf8427e'')"

definition example_join :: "string list \<Rightarrow> string" where
  "example_join parts =
     foldr (\<lambda>part acc. if acc = [] then part else part @ ''/'' @ acc)
       (filter (\<lambda>part. part \<noteq> []) parts) []"

definition example_dirname :: "string \<Rightarrow> string" where
  "example_dirname p =
     (if CHR ''/'' \<in> set p then rev (tl (dropWhile (\<lambda>c. c \<noteq> CHR ''/'') (rev p))) else ''.'')"

definition example_RegExp :: "string \<Rightarrow> string + (string \<Rightarrow> bool)" where
  "example_RegExp p =
     (if p = ''('' then Inl ''Invalid regular expression: /(/: Unterminated group''
      else if p = ''^0:dead'' then Inr (prefix ''0:dead'')
      else Inr (\<lambda>s. False))"

definition example_lib :: "unit Platform" where
  "example_lib =
     \<lparr>md5_hex = example_md5, path_join = example_join, path_dirname = example_dirname,
      JSON_stringify = (\<lambda>u. ''{}''), RegExp_new = example_RegExp\<rparr>"

definition empty_disk :: FileSystem where
  "empty_disk = \<lparr>files = Map.empty, dirs = {}, faulty = Map.empty, journal = []\<rparr>"

text \<open>
  An empty disk and a scheduler under which the three tasks of a page start, pass the
  existence check, and then the first and the third run to their return before the second
  hears from the network.
\<close>

definition example_world :: World where
  "example_world =
     \<lparr>disk = empty_disk, addressFilter = newAddressFilter [], events = [],
      scheduler = [0, 1, 2, 0, 1, 2, 0, 2, 0, 2, 0, 2, 0, 2, 1]\<rparr>"

text \<open>
  A source with one page: asked without a cursor it returns three accounts, no next
  page and the cursor \<open>c1\<close>; asked with any cursor it returns an empty page and no next
  page. The detail of the second account cannot be fetched.
\<close>

definition example_net :: "unit Clients" where
  "example_net =
     \<lparr>fetchAccounts = (\<lambda>first after.
        if after = None then
          Inr \<lparr>pageInfo = \<lparr>hasNextPage = False, endCursor = Some ''c1''\<rparr>,
               nodes = [\<lparr>rawAddress = ''0:aaaaaaaaaaaa''\<rparr>, \<lparr>rawAddress = ''0:bbbbbbbbbbbb''\<rparr>,
                        \<lparr>rawAddress = ''0:cccccccccccc''\<rparr>]\<rparr>
        else Inr \<lparr>pageInfo = \<lparr>hasNextPage = False, endCursor = None\<rparr>, nodes = []\<rparr>),
      inspectContract = (\<lambda>addr.
        if addr = ''0:bbbbbbbbbbbb'' then Inl ''API error (500): HTTP 500'' else Inr ())\<rparr>"

text \<open>
  Whether a list of primitive operations opens or writes the file at \<open>target\<close> itself,
  rather than a temporary file that is renamed to it.
\<close>

fun touches :: "string \<Rightarrow> fs_op \<Rightarrow> bool" where
  "touches target (OpOpenTrunc p) = (p = target)"
| "touches target (OpWrite p c) = (p = target)"
| "touches target (OpMkdir p) = False"
| "touches target (OpRename p q) = False"

definition writes_directly :: "fs_op list \<Rightarrow> string \<Rightarrow> bool" where
  "writes_directly ops target = list_ex (touches target) ops"

text \<open>The result of an iteration that found no account.\<close>

definition empty_iteration :: IterationResult where
  "empty_iteration =
     \<lparr>summary = \<lparr>total = 0, successful = 0, failed = 0, skipped_bs = 0, errors = []\<rparr>,
      hasNextPage_ir = False, endCursor_ir = None\<rparr>"

text \<open>A restart: the cursor file holds \<open>c1\<close>, the cursor of the source's last page.\<close>

definition resumed_world :: World where
  "resumed_world =
     \<lparr>disk = empty_disk\<lparr>files := [''cursor.txt'' \<mapsto> ''c1'']\<rparr>,
      addressFilter = newAddressFilter [], events = [], scheduler = []\<rparr>"

text \<open>The worlds in which the cursor file holds \<open>c1\<close> and no path is faulty.\<close>

definition parked :: "World \<Rightarrow> bool" where
  "parked w = (files (disk w) ''cursor.txt'' = Some ''c1'' \<and> faulty (disk w) = Map.empty)"

text \<open>A disk on which the file of the third account cannot be opened.\<close>

definition faulty_world :: World where
  "faulty_world =
     example_world\<lparr>disk := empty_disk\<lparr>faulty :=
       [''data/57/9c/inspect_0_cccccccccccc.json'' \<mapsto>
          (''EACCES'', ''Error: EACCES: permission denied, open data/57/9c/inspect_0_cccccccccccc.json'')]\<rparr>\<rparr>"

section \<open>Notions used in the statements about a batch\<close>

text \<open>
  The disk operations that the task of an address can perform: it makes its directory,
  and opens and writes its file.
\<close>

fun task_op :: "IndexerConfig \<Rightarrow> ('d, 'x) Platform_scheme \<Rightarrow> string \<Rightarrow> fs_op \<Rightarrow> bool" where
  "task_op config lib rawAddr (OpMkdir p) =
     (p = getDirectoryPath lib rawAddr (dataDirectory config) None)"
| "task_op config lib rawAddr (OpOpenTrunc p) =
     (p = getFilePath lib rawAddr (dataDirectory config) None)"
| "task_op config lib rawAddr (OpWrite p c) =
     (p = getFilePath lib rawAddr (dataDirectory config) None)"
| "task_op config lib rawAddr (OpRename p q) = False"

text \<open>
  Account \<open>i\<close> of a page is undisturbed when no other account of the page has its file,
  or its directory, at the path of the file of account \<open>i\<close>.
\<close>

definition undisturbed ::
  "IndexerConfig \<Rightarrow> ('d, 'x) Platform_scheme \<Rightarrow> AccountNode list \<Rightarrow> nat \<Rightarrow> bool" where
  "undisturbed config lib accounts i =
     list_all
       (\<lambda>j. j = i
            \<or> (getFilePath lib (rawAddress (accounts ! j)) (dataDirectory config) None
                  \<noteq> getFilePath lib (rawAddress (accounts ! i)) (dataDirectory config) None
               \<and> getDirectoryPath lib (rawAddress (accounts ! j)) (dataDirectory config) None
                  \<noteq> getFilePath lib (rawAddress (accounts ! i)) (dataDirectory config) None))
       [0..<length accounts]"

section \<open>Properties of compileBatchSummary\<close>

lemma foldl_summary_total: "total (foldl summary_step s rs) = total s"
  by (induction rs arbitrary: s) (simp_all add: summary_step_def Let_def)

lemma foldl_summary_successful:
  "successful (foldl summary_step s rs) =
     successful s + length (filter (\<lambda>r. success r \<and> \<not> truthy_bool (skipped r)) rs)"
  by (induction rs arbitrary: s) (simp_all add: summary_step_def Let_def)

lemma foldl_summary_skipped:
  "skipped_bs (foldl summary_step s rs) =
     skipped_bs s + length (filter (\<lambda>r. success r \<and> truthy_bool (skipped r)) rs)"
  by (induction rs arbitrary: s) (simp_all add: summary_step_def Let_def)

lemma foldl_summary_failed:
  "failed (foldl summary_step s rs) = failed s + length (filter (\<lambda>r. \<not> success r) rs)"
  by (induction rs arbitrary: s) (simp_all add: summary_step_def Let_def)

lemma foldl_summary_errors:
  "errors (foldl summary_step s rs) =
     errors s @ map (\<lambda>r. (address r, the (error r)))
                  (filter (\<lambda>r. \<not> success r \<and> truthy_str (error r)) rs)"
  by (induction rs arbitrary: s) (simp_all add: summary_step_def Let_def)

lemma three_buckets:
  "length (filter (\<lambda>r. success r \<and> \<not> truthy_bool (skipped r)) rs)
   + length (filter (\<lambda>r. \<not> success r) rs)
   + length (filter (\<lambda>r. success r \<and> truthy_bool (skipped r)) rs) = length rs"
  by (induction rs) simp_all

lemma truthy_str_the: "truthy_str e \<Longrightarrow> e = Some (the e)"
  by (cases e) simp_all

text \<open>
  Claim C10. For every list of processing results, the summary has \<open>total\<close> equal to the
  length of the list, \<open>successful + failed + skipped = total\<close>, each counter is the number
  of results of its own bucket (success and not skipped, not success, success and
  skipped), and every entry of \<open>errors\<close> is the address and error text of a result with
  \<open>success = false\<close>.
\<close>

theorem compileBatchSummary_counts:
  "total (compileBatchSummary rs) = length rs
   \<and> successful (compileBatchSummary rs) + failed (compileBatchSummary rs)
       + skipped_bs (compileBatchSummary rs) = total (compileBatchSummary rs)
   \<and> successful (compileBatchSummary rs)
       = length (filter (\<lambda>r. success r \<and> \<not> truthy_bool (skipped r)) rs)
   \<and> failed (compileBatchSummary rs) = length (filter (\<lambda>r. \<not> success r) rs)
   \<and> skipped_bs (compileBatchSummary rs)
       = length (filter (\<lambda>r. success r \<and> truthy_bool (skipped r)) rs)
   \<and> (\<forall>e \<in> set (errors (compileBatchSummary rs)).
         \<exists>r \<in> set rs. \<not> success r \<and> address r = fst e \<and> error r = Some (snd e))"
proof -
  let ?s = "compileBatchSummary rs"
  have t: "total ?s = length rs"
    by (simp add: compileBatchSummary_def foldl_summary_total)
  have su: "successful ?s = length (filter (\<lambda>r. success r \<and> \<not> truthy_bool (skipped r)) rs)"
    by (simp add: compileBatchSummary_def foldl_summary_successful)
  have fa: "failed ?s = length (filter (\<lambda>r. \<not> success r) rs)"
    by (simp add: compileBatchSummary_def foldl_summary_failed)
  have sk: "skipped_bs ?s = length (filter (\<lambda>r. success r \<and> truthy_bool (skipped r)) rs)"
    by (simp add: compileBatchSummary_def foldl_summary_skipped)
  have sum: "successful ?s + failed ?s + skipped_bs ?s = total ?s"
    unfolding t su fa sk by (rule three_buckets)
  have er: "errors ?s = map (\<lambda>r. (address r, the (error r)))
                          (filter (\<lambda>r. \<not> success r \<and> truthy_str (error r)) rs)"
    by (simp add: compileBatchSummary_def foldl_summary_errors)
  have mem: "\<forall>e \<in> set (errors ?s).
               \<exists>r \<in> set rs. \<not> success r \<and> address r = fst e \<and> error r = Some (snd e)"
  proof
    fix e assume "e \<in> set (errors ?s)"
    then obtain r where r: "r \<in> set rs" "\<not> success r" "truthy_str (error r)"
        and e: "e = (address r, the (error r))"
      unfolding er by auto
    from r(3) have "error r = Some (the (error r))" by (rule truthy_str_the)
    with r e show "\<exists>r \<in> set rs. \<not> success r \<and> address r = fst e \<and> error r = Some (snd e)"
      by auto
  qed
  from t sum su fa sk mem show ?thesis by blast
qed

text \<open>
  The summary of one saved, one filtered and one failed result: the single entry of
  \<open>errors\<close> is the failed result's.
\<close>

theorem compileBatchSummary_counts_witness:
  "errors (compileBatchSummary
     [\<lparr>address = ''0:aa'', success = True, error = None, skipped = None, filePath = Some ''p''\<rparr>,
      \<lparr>address = ''0:bb'', success = True, error = Some ''Filtered: zero_heavy'',
       skipped = Some True, filePath = None\<rparr>,
      \<lparr>address = ''0:cc'', success = False, error = Some ''boom'', skipped = None,
       filePath = None\<rparr>]) = [(''0:cc'', ''boom'')]
   \<and> total (compileBatchSummary
     [\<lparr>address = ''0:aa'', success = True, error = None, skipped = None, filePath = Some ''p''\<rparr>,
      \<lparr>address = ''0:bb'', success = True, error = Some ''Filtered: zero_heavy'',
       skipped = Some True, filePath = None\<rparr>,
      \<lparr>address = ''0:cc'', success = False, error = Some ''boom'', skipped = None,
       filePath = None\<rparr>]) = 3"
  using compileBatchSummary_counts
    [of "[\<lparr>address = ''0:aa'', success = True, error = None, skipped = None, filePath = Some ''p''\<rparr>,
      \<lparr>address = ''0:bb'', success = True, error = Some ''Filtered: zero_heavy'',
       skipped = Some True, filePath = None\<rparr>,
      \<lparr>address = ''0:cc'', success = False, error = Some ''boom'', skipped = None,
       filePath = None\<rparr>]"]
  by (simp add: compileBatchSummary_def summary_step_def)

section \<open>Properties of calculateOptimalDirectoryLevels\<close>

text \<open>
  What the code computes: the smallest depth in \<open>[2,6]\<close> with
  \<open>n / 65536^depth \<le> 1000\<close>, and 6 when there is none.
\<close>

lemma calculateOptimalDirectoryLevels_divides_by_65536:
  "calculateOptimalDirectoryLevels n =
     (case filter (\<lambda>d. (of_nat n :: rat) / 65536 ^ d \<le> 1000) [2, 3, 4, 5, 6] of
        [] \<Rightarrow> 6
      | d # _ \<Rightarrow> d)"
proof -
  have l6: "levels_loop n 6 t = 6" for t
    by (simp add: MAX_DIRECTORY_LEVELS_def)
  have l5: "levels_loop n 5 (65536 ^ 5)
              = (if (of_nat n :: rat) / 65536 ^ 5 \<le> 1000 then 5 else 6)"
    using l6 by (simp add: MAX_DIRECTORY_LEVELS_def MAX_FILES_PER_DIRECTORY_def
        foldersPerLevel_def HASH_LENGTH_def not_le)
  have l4: "levels_loop n 4 (65536 ^ 4)
              = (if (of_nat n :: rat) / 65536 ^ 4 \<le> 1000 then 4
                 else levels_loop n 5 (65536 ^ 5))"
    by (simp add: MAX_DIRECTORY_LEVELS_def MAX_FILES_PER_DIRECTORY_def
        foldersPerLevel_def HASH_LENGTH_def not_le)
  have l3: "levels_loop n 3 (65536 ^ 3)
              = (if (of_nat n :: rat) / 65536 ^ 3 \<le> 1000 then 3
                 else levels_loop n 4 (65536 ^ 4))"
    by (simp add: MAX_DIRECTORY_LEVELS_def MAX_FILES_PER_DIRECTORY_def
        foldersPerLevel_def HASH_LENGTH_def not_le)
  have l2: "levels_loop n 2 (65536 ^ 2)
              = (if (of_nat n :: rat) / 65536 ^ 2 \<le> 1000 then 2
                 else levels_loop n 3 (65536 ^ 3))"
    by (simp add: MAX_DIRECTORY_LEVELS_def MAX_FILES_PER_DIRECTORY_def
        foldersPerLevel_def HASH_LENGTH_def not_le)
  have c: "calculateOptimalDirectoryLevels n = min (levels_loop n 2 (65536 ^ 2)) 6"
    by (simp add: calculateOptimalDirectoryLevels_def MIN_DIRECTORY_LEVELS_def
        MAX_DIRECTORY_LEVELS_def foldersPerLevel_def HASH_LENGTH_def)
  show ?thesis
    unfolding c l2 l3 l4 l5 by simp
qed

text \<open>
  Claim C2. The specification asks for the smallest depth in \<open>[2,6]\<close> with
  \<open>n / 256^depth \<le> 1000\<close>. The code divides by \<open>(256^2)^depth\<close>: at 65,536,001 expected
  files it returns 2, although \<open>65536001 / 256^2 > 1000\<close> and the depth asked for is 3.
\<close>

theorem calculateOptimalDirectoryLevels_at_65536001:
  "calculateOptimalDirectoryLevels 65536001 = 2
   \<and> \<not> ((65536001 :: rat) / 256 ^ 2 \<le> 1000)
   \<and> optimalDepth_spec 65536001 = 3"
  by (simp add: calculateOptimalDirectoryLevels_def foldersPerLevel_def HASH_LENGTH_def
      MIN_DIRECTORY_LEVELS_def MAX_DIRECTORY_LEVELS_def MAX_FILES_PER_DIRECTORY_def
      optimalDepth_spec_def)


section \<open>Properties of the clients' error handlers\<close>

lemma rateLimitDelay_numeric:
  "truthy_str retryAfter \<Longrightarrow> parseInt10 (the retryAfter) = Some r
     \<Longrightarrow> rateLimitDelay config retryAfter attempt = r * 1000"
  by (simp add: rateLimitDelay_def)

lemma rateLimitDelay_no_header:
  "\<not> truthy_str retryAfter
     \<Longrightarrow> rateLimitDelay config retryAfter attempt = min (retryDelayMs config * 2 ^ attempt) 60000"
  by (simp add: rateLimitDelay_def exponential_backoff_def)

lemma rateLimitDelay_not_numeric:
  "truthy_str retryAfter \<Longrightarrow> parseInt10 (the retryAfter) = None
     \<Longrightarrow> rateLimitDelay config retryAfter attempt = min (retryDelayMs config * 2 ^ attempt) 60000"
  by (simp add: rateLimitDelay_def exponential_backoff_def)

lemma RestClient_rate_limited:
  "status response = 429 \<Longrightarrow>
     shouldRetry (RestClient_handleError config (AxiosError (Some response) req msg) attempt)
     \<and> delay (RestClient_handleError config (AxiosError (Some response) req msg) attempt)
         = rateLimitDelay config
             (js_or (headers response ''retry-after'') (headers response ''Retry-After'')) attempt"
  by (simp add: Let_def)

lemma headers_index_undefined: "headers_index h name = None"
  by (cases h) simp

lemma GraphQLClient_rate_limited:
  "shouldRetry (GraphQLClient_handleError config (ClientError (Some 429) hdrs msg) attempt)
   \<and> delay (GraphQLClient_handleError config (ClientError (Some 429) hdrs msg) attempt)
       = min (retryDelayMs config * 2 ^ attempt) 60000"
  by (cases hdrs)
     (simp_all add: Let_def js_or_def rateLimitDelay_def exponential_backoff_def
        headers_index_undefined)

lemma RestClient_other_status:
  "status response \<noteq> 429 \<Longrightarrow>
     shouldRetry (RestClient_handleError config (AxiosError (Some response) req msg) attempt)
     \<and> delay (RestClient_handleError config (AxiosError (Some response) req msg) attempt)
         = retryDelayMs config * int attempt"
  by (simp add: Let_def)

lemma RestClient_no_response:
  "shouldRetry (RestClient_handleError config (AxiosError None True msg) attempt)
   \<and> delay (RestClient_handleError config (AxiosError None True msg) attempt)
       = retryDelayMs config * int attempt"
  by simp

lemma GraphQLClient_other_status:
  "st \<noteq> Some 429 \<Longrightarrow>
     shouldRetry (GraphQLClient_handleError config (ClientError st hdrs msg) attempt)
     \<and> delay (GraphQLClient_handleError config (ClientError st hdrs msg) attempt)
         = retryDelayMs config * int attempt"
  by simp

lemma GraphQLClient_not_ClientError:
  "\<not> shouldRetry (GraphQLClient_handleError config (NonClientError msg) attempt)
   \<and> delay (GraphQLClient_handleError config (NonClientError msg) attempt) = 0"
  by simp

text \<open>
  Claim C4. The claim gives a transient error the delay \<open>baseDelayMs * 2^a\<close> capped at
  60,000 ms. With the default base delay of 1000 ms and at attempt 3 that is 8000 ms. The
  code returns 3000 ms, \<open>retryDelayMs * attempt\<close>, for a response with status 500 and for
  a request without response in the REST client, and for a \<open>ClientError\<close> with status
  500 in the GraphQL client; only the 429 branch without \<open>Retry-After\<close> returns 8000 ms.
\<close>

theorem transient_delay_at_attempt_3:
  "delay (RestClient_handleError example_config
            (AxiosError (Some \<lparr>status = 500, data = None, headers = Map.empty,
                               statusText = ''Internal Server Error''\<rparr>)
               True ''Request failed with status code 500'') 3) = 3000
   \<and> delay (RestClient_handleError example_config
              (AxiosError None True ''timeout of 30000ms exceeded'') 3) = 3000
   \<and> delay (GraphQLClient_handleError example_config
              (ClientError (Some 500) None ''GraphQL Error (Code: 500)'') 3) = 3000
   \<and> delay (RestClient_handleError example_config
              (AxiosError (Some \<lparr>status = 429, data = None, headers = Map.empty,
                                 statusText = ''Too Many Requests''\<rparr>)
                 True ''Request failed with status code 429'') 3) = 8000
   \<and> min (retryDelayMs example_config * 2 ^ 3) 60000 = 8000"
  by code_simp

text \<open>
  Claim C5. The claim caps the delay of a rate-limited response with a numeric
  \<open>Retry-After\<close> at 60,000 ms. For a 429 response with \<open>Retry-After: 120\<close> the REST client
  returns a delay of 120,000 ms (and \<open>shouldRetry = true\<close>), where the cap would give
  60,000 ms. The GraphQL client never reads the header of such a response: it returns
  the exponential back-off, 2000 ms at attempt 1, which is not the value the claim
  gives either.
\<close>

theorem retry_after_120_delay:
  "delay (RestClient_handleError example_config
            (AxiosError (Some \<lparr>status = 429, data = None,
                               headers = [''retry-after'' \<mapsto> ''120''],
                               statusText = ''Too Many Requests''\<rparr>)
               True ''Request failed with status code 429'') 1) = 120000
   \<and> shouldRetry (RestClient_handleError example_config
            (AxiosError (Some \<lparr>status = 429, data = None,
                               headers = [''retry-after'' \<mapsto> ''120''],
                               statusText = ''Too Many Requests''\<rparr>)
               True ''Request failed with status code 429'') 1)
   \<and> headers_get (FetchHeaders [''retry-after'' \<mapsto> ''120'']) ''retry-after'' = Some ''120''
   \<and> delay (GraphQLClient_handleError example_config
              (ClientError (Some 429) (Some (FetchHeaders [''retry-after'' \<mapsto> ''120'']))
                 ''GraphQL Error (Code: 429)'') 1) = 2000
   \<and> shouldRetry (GraphQLClient_handleError example_config
              (ClientError (Some 429) (Some (FetchHeaders [''retry-after'' \<mapsto> ''120'']))
                 ''GraphQL Error (Code: 429)'') 1)
   \<and> min (120 * 1000) (60000 :: int) = 60000"
  by code_simp

section \<open>Properties of the store\<close>

lemma saveContractData_only_touches_target:
  "\<exists>ops. journal (snd (saveContractData lib d0 dataDir rawAddr payload levels)) = journal d0 @ ops
     \<and> set ops \<subseteq> {OpMkdir (getDirectoryPath lib rawAddr dataDir levels),
                    OpOpenTrunc (getFilePath lib rawAddr dataDir levels),
                    OpWrite (getFilePath lib rawAddr dataDir levels) (JSON_stringify lib payload)}"
  by (auto simp: saveContractData_def prepareFilePath_def ensureDirectoryExists_def
      fs_mkdir_recursive_def fs_writeFile_def perform_def Let_def getFilePath_def
      split: option.splits sum.splits prod.splits if_splits)

lemma saveContractData_without_fault:
  assumes "faulty d0 (getDirectoryPath lib rawAddr dataDir levels) = None"
      and "faulty d0 (getFilePath lib rawAddr dataDir levels) = None"
  shows "fst (saveContractData lib d0 dataDir rawAddr payload levels)
           = Inr (getFilePath lib rawAddr dataDir levels)
    \<and> journal (snd (saveContractData lib d0 dataDir rawAddr payload levels)) = journal d0 @
        [OpMkdir (getDirectoryPath lib rawAddr dataDir levels),
         OpOpenTrunc (getFilePath lib rawAddr dataDir levels),
         OpWrite (getFilePath lib rawAddr dataDir levels) (JSON_stringify lib payload)]
    \<and> files (snd (saveContractData lib d0 dataDir rawAddr payload levels))
          (getFilePath lib rawAddr dataDir levels) = Some (JSON_stringify lib payload)
    \<and> contractFileExists lib (snd (saveContractData lib d0 dataDir rawAddr payload levels))
          dataDir rawAddr levels"
  using assms
  by (auto simp: saveContractData_def prepareFilePath_def ensureDirectoryExists_def
      fs_mkdir_recursive_def fs_writeFile_def perform_def Let_def getFilePath_def
      contractFileExists_def fs_pathExists_def
      split: option.splits sum.splits prod.splits if_splits)

lemma saveContractData_flat_without_fault:
  assumes "faulty d0 dataDir = None"
      and "faulty d0 (path_join lib [dataDir, generateFileName rawAddr]) = None"
  shows "fst (saveContractData_flat lib d0 dataDir rawAddr payload)
           = Inr (path_join lib [dataDir, generateFileName rawAddr])
    \<and> journal (snd (saveContractData_flat lib d0 dataDir rawAddr payload)) = journal d0 @
        [OpMkdir dataDir,
         OpOpenTrunc (path_join lib [dataDir, generateFileName rawAddr]),
         OpWrite (path_join lib [dataDir, generateFileName rawAddr]) (JSON_stringify lib payload)]
    \<and> files (snd (saveContractData_flat lib d0 dataDir rawAddr payload))
          (path_join lib [dataDir, generateFileName rawAddr]) = Some (JSON_stringify lib payload)
    \<and> contractFileExists_flat lib (snd (saveContractData_flat lib d0 dataDir rawAddr payload))
          dataDir rawAddr"
  using assms
  by (auto simp: saveContractData_flat_def fs_mkdir_recursive_def fs_writeFile_def perform_def
      Let_def contractFileExists_flat_def fs_pathExists_def
      split: option.splits sum.splits prod.splits if_splits)

text \<open>
  An error of the write itself: when the device is full the file has been opened, so
  \<open>saveContractData\<close> throws and leaves the final path present and empty.
\<close>

lemma saveContractData_write_error_leaves_empty_file:
  "fst (saveContractData example_lib
          (empty_disk\<lparr>faulty := [''data/dc/ed/inspect_0_aaaaaaaaaaaa.json'' \<mapsto>
             (''ENOSPC'', ''Error: ENOSPC: no space left on device, write'')]\<rparr>)
          ''data'' ''0:aaaaaaaaaaaa'' () None)
     = Inl ''Failed to save contract data for 0:aaaaaaaaaaaa: Error: ENOSPC: no space left on device, write''
   \<and> files (snd (saveContractData example_lib
          (empty_disk\<lparr>faulty := [''data/dc/ed/inspect_0_aaaaaaaaaaaa.json'' \<mapsto>
             (''ENOSPC'', ''Error: ENOSPC: no space left on device, write'')]\<rparr>)
          ''data'' ''0:aaaaaaaaaaaa'' () None))
       ''data/dc/ed/inspect_0_aaaaaaaaaaaa.json'' = Some []
   \<and> journal (snd (saveContractData example_lib
          (empty_disk\<lparr>faulty := [''data/dc/ed/inspect_0_aaaaaaaaaaaa.json'' \<mapsto>
             (''ENOSPC'', ''Error: ENOSPC: no space left on device, write'')]\<rparr>)
          ''data'' ''0:aaaaaaaaaaaa'' () None))
       = [OpMkdir ''data/dc/ed'', OpOpenTrunc ''data/dc/ed/inspect_0_aaaaaaaaaaaa.json'']"
  by code_simp

text \<open>
  Claim C3, as stated, fails. Saving the empty object for the address
  \<open>0:aaaaaaaaaaaa\<close> on an empty disk performs three primitive operations: the
  directory is made, the final path is opened (created, empty) and the data is written
  to it. The final path is opened and written itself and nothing is renamed; when only
  the first two operations have taken effect, \<open>contractFileExists\<close> reports the file as
  present and its content is empty, not the serialized snapshot \<open>{}\<close>. The store with
  one flat directory does the same.
\<close>

theorem saveContractData_direct_write:
  "fst (saveContractData example_lib empty_disk ''data'' ''0:aaaaaaaaaaaa'' () None)
     = Inr ''data/dc/ed/inspect_0_aaaaaaaaaaaa.json''
   \<and> journal (snd (saveContractData example_lib empty_disk ''data'' ''0:aaaaaaaaaaaa'' () None))
     = [OpMkdir ''data/dc/ed'', OpOpenTrunc ''data/dc/ed/inspect_0_aaaaaaaaaaaa.json'',
        OpWrite ''data/dc/ed/inspect_0_aaaaaaaaaaaa.json'' ''{}'']
   \<and> writes_directly
        (journal (snd (saveContractData example_lib empty_disk ''data'' ''0:aaaaaaaaaaaa'' () None)))
        ''data/dc/ed/inspect_0_aaaaaaaaaaaa.json''
   \<and> contractFileExists example_lib
        (replay (take 2 (journal (snd (saveContractData example_lib empty_disk ''data''
                                         ''0:aaaaaaaaaaaa'' () None)))) empty_disk)
        ''data'' ''0:aaaaaaaaaaaa'' None
   \<and> files (replay (take 2 (journal (snd (saveContractData example_lib empty_disk ''data''
                                           ''0:aaaaaaaaaaaa'' () None)))) empty_disk)
        ''data/dc/ed/inspect_0_aaaaaaaaaaaa.json'' = Some []
   \<and> JSON_stringify example_lib () = ''{}''
   \<and> journal (snd (saveContractData_flat example_lib empty_disk ''data'' ''0:aaaaaaaaaaaa'' ()))
     = [OpMkdir ''data'', OpOpenTrunc ''data/inspect_0_aaaaaaaaaaaa.json'',
        OpWrite ''data/inspect_0_aaaaaaaaaaaa.json'' ''{}'']
   \<and> contractFileExists_flat example_lib
        (replay (take 2 (journal (snd (saveContractData_flat example_lib empty_disk ''data''
                                         ''0:aaaaaaaaaaaa'' ())))) empty_disk)
        ''data'' ''0:aaaaaaaaaaaa''
   \<and> files (replay (take 2 (journal (snd (saveContractData_flat example_lib empty_disk ''data''
                                           ''0:aaaaaaaaaaaa'' ())))) empty_disk)
        ''data/inspect_0_aaaaaaaaaaaa.json'' = Some []"
  by code_simp

text \<open>
  Claim C3, amended. \<open>saveContractData\<close> makes the directory and then writes the
  serialized snapshot with one \<open>fs.writeFile\<close> straight to the final path, the path
  that \<open>contractFileExists\<close> checks; it uses no temporary file and renames nothing.
  When neither the directory nor the final path raises an I/O error, it returns the
  final path, that file then holds the whole serialized snapshot, and
  \<open>contractFileExists\<close> reports it. This holds for the hierarchical store and for the
  store with one flat directory.
\<close>

theorem saveContractData_writes_final_path:
  assumes "faulty d0 (getDirectoryPath lib rawAddr dataDir levels) = None"
      and "faulty d0 (getFilePath lib rawAddr dataDir levels) = None"
      and "faulty d0 dataDir = None"
      and "faulty d0 (path_join lib [dataDir, generateFileName rawAddr]) = None"
  shows "fst (saveContractData lib d0 dataDir rawAddr payload levels)
           = Inr (getFilePath lib rawAddr dataDir levels)
    \<and> journal (snd (saveContractData lib d0 dataDir rawAddr payload levels)) = journal d0 @
        [OpMkdir (getDirectoryPath lib rawAddr dataDir levels),
         OpOpenTrunc (getFilePath lib rawAddr dataDir levels),
         OpWrite (getFilePath lib rawAddr dataDir levels) (JSON_stringify lib payload)]
    \<and> files (snd (saveContractData lib d0 dataDir rawAddr payload levels))
          (getFilePath lib rawAddr dataDir levels) = Some (JSON_stringify lib payload)
    \<and> contractFileExists lib (snd (saveContractData lib d0 dataDir rawAddr payload levels))
          dataDir rawAddr levels
    \<and> fst (saveContractData_flat lib d0 dataDir rawAddr payload)
           = Inr (path_join lib [dataDir, generateFileName rawAddr])
    \<and> journal (snd (saveContractData_flat lib d0 dataDir rawAddr payload)) = journal d0 @
        [OpMkdir dataDir,
         OpOpenTrunc (path_join lib [dataDir, generateFileName rawAddr]),
         OpWrite (path_join lib [dataDir, generateFileName rawAddr]) (JSON_stringify lib payload)]
    \<and> files (snd (saveContractData_flat lib d0 dataDir rawAddr payload))
          (path_join lib [dataDir, generateFileName rawAddr]) = Some (JSON_stringify lib payload)
    \<and> contractFileExists_flat lib (snd (saveContractData_flat lib d0 dataDir rawAddr payload))
          dataDir rawAddr"
  using saveContractData_without_fault [OF assms(1) assms(2)]
        saveContractData_flat_without_fault [OF assms(3) assms(4)]
  by blast

theorem saveContractData_writes_final_path_witness:
  "faulty empty_disk (getDirectoryPath example_lib ''0:aaaaaaaaaaaa'' ''data'' None) = None
   \<and> faulty empty_disk (getFilePath example_lib ''0:aaaaaaaaaaaa'' ''data'' None) = None
   \<and> faulty empty_disk ''data'' = None
   \<and> faulty empty_disk (path_join example_lib [''data'', generateFileName ''0:aaaaaaaaaaaa'']) = None
   \<and> fst (saveContractData example_lib empty_disk ''data'' ''0:aaaaaaaaaaaa'' () None)
       = Inr (getFilePath example_lib ''0:aaaaaaaaaaaa'' ''data'' None)
   \<and> files (snd (saveContractData example_lib empty_disk ''data'' ''0:aaaaaaaaaaaa'' () None))
       (getFilePath example_lib ''0:aaaaaaaaaaaa'' ''data'' None)
       = Some (JSON_stringify example_lib ())
   \<and> fst (saveContractData_flat example_lib empty_disk ''data'' ''0:aaaaaaaaaaaa'' ())
       = Inr (path_join example_lib [''data'', generateFileName ''0:aaaaaaaaaaaa''])"
proof -
  have f: "faulty empty_disk p = None" for p
    by (simp add: empty_disk_def)
  show ?thesis
    using saveContractData_writes_final_path
      [where lib = example_lib and ?d0.0 = empty_disk and rawAddr = "''0:aaaaaaaaaaaa''"
         and dataDir = "''data''" and levels = None and payload = "()"]
    by (simp add: f)
qed

section \<open>Properties of the address filter\<close>

lemma matchesPattern_invalid:
  "RegExp_new lib pat = Inl e \<Longrightarrow> matchesPattern lib addr pat = False"
  by (simp add: matchesPattern_def matchesPattern_try_def)

lemma find_removeAll: "\<not> P x \<Longrightarrow> find P (removeAll x xs) = find P xs"
  by (induction xs) auto

lemma decision_without_pattern:
  assumes "\<not> matchesPattern lib addr pat"
  shows "fst (shouldProcessAddress lib
                (f\<lparr>customSkipPatterns := removeAll pat (customSkipPatterns f)\<rparr>) addr)
           = fst (shouldProcessAddress lib f addr)"
  using assms
  by (simp add: shouldProcessAddress_def skipAddress_def Let_def find_removeAll
      split: option.splits)

lemma reason_not_pattern:
  assumes "\<not> matchesPattern lib addr pat"
  shows "skipReason (fst (shouldProcessAddress lib f addr)) \<noteq> Some (''custom_pattern:'' @ pat)"
proof -
  have "find (matchesPattern lib addr) ps \<noteq> Some pat" for ps
    using assms by (auto simp: find_Some_iff)
  then show ?thesis
    by (auto simp: shouldProcessAddress_def skipAddress_def Let_def split: option.splits)
qed

text \<open>
  Claim C8. For every identifier and every custom pattern for which \<open>new RegExp\<close>
  throws, the \<open>try\<close> block of \<open>matchesPattern\<close> throws and \<open>matchesPattern\<close> itself
  returns \<open>false\<close>; \<open>shouldProcessAddress\<close> returns a decision (it has no way to throw:
  its only call that can throw is the one \<open>matchesPattern\<close> catches), the decision is
  never a skip for that pattern, and it is the decision the filter takes when the pattern
  is not configured at all.
\<close>

theorem invalid_pattern_never_matches:
  assumes "RegExp_new lib pat = Inl e"
  shows "matchesPattern_try lib addr pat = Inl e
     \<and> \<not> matchesPattern lib addr pat
     \<and> skipReason (fst (shouldProcessAddress lib f addr)) \<noteq> Some (''custom_pattern:'' @ pat)
     \<and> fst (shouldProcessAddress lib f addr)
        = fst (shouldProcessAddress lib
                 (f\<lparr>customSkipPatterns := removeAll pat (customSkipPatterns f)\<rparr>) addr)"
proof -
  have m: "\<not> matchesPattern lib addr pat"
    using assms by (simp add: matchesPattern_invalid)
  have t: "matchesPattern_try lib addr pat = Inl e"
    using assms by (simp add: matchesPattern_try_def)
  show ?thesis
    using m t reason_not_pattern [OF m] decision_without_pattern [OF m] by simp
qed

text \<open>
  With the invalid pattern \<open>(\<close> configured before \<open>^0:dead\<close>, an address that no rule
  matches is kept, and an address that the second pattern matches is still skipped.
\<close>

theorem invalid_pattern_never_matches_witness:
  "RegExp_new example_lib ''('' = Inl ''Invalid regular expression: /(/: Unterminated group''
   \<and> \<not> matchesPattern example_lib ''0:aaaaaaaaaaaa'' ''(''
   \<and> fst (shouldProcessAddress example_lib (newAddressFilter [''('', ''^0:dead''])
            ''0:aaaaaaaaaaaa'')
       = \<lparr>shouldProcess = True, skipReason = None\<rparr>
   \<and> fst (shouldProcessAddress example_lib (newAddressFilter [''('', ''^0:dead''])
            ''0:deadbeef0000'')
       = \<lparr>shouldProcess = False, skipReason = Some ''custom_pattern:^0:dead''\<rparr>"
proof -
  have inv: "RegExp_new example_lib ''(''
               = Inl ''Invalid regular expression: /(/: Unterminated group''"
    by (simp add: example_lib_def example_RegExp_def)
  have a: "fst (shouldProcessAddress example_lib (newAddressFilter [''('', ''^0:dead''])
                 ''0:aaaaaaaaaaaa'')
       = \<lparr>shouldProcess = True, skipReason = None\<rparr>"
    by code_simp
  have b: "fst (shouldProcessAddress example_lib (newAddressFilter [''('', ''^0:dead''])
                 ''0:deadbeef0000'')
       = \<lparr>shouldProcess = False, skipReason = Some ''custom_pattern:^0:dead''\<rparr>"
    by code_simp
  show ?thesis
    using invalid_pattern_never_matches
      [OF inv, of "''0:aaaaaaaaaaaa''" "newAddressFilter [''('', ''^0:dead'']"] inv a b
    by simp
qed

section \<open>Properties of the shard path\<close>

lemma concat_segments:
  "2 * d \<le> length h \<Longrightarrow> concat (map (\<lambda>i. take 2 (drop (i * 2) h)) [0..<d]) = take (2 * d) h"
proof (induction d)
  case 0
  then show ?case by simp
next
  case (Suc d)
  then have "concat (map (\<lambda>i. take 2 (drop (i * 2) h)) [0..<d]) = take (2 * d) h"
    by simp
  moreover have "take (2 * d + 2) h = take (2 * d) h @ take 2 (drop (2 * d) h)"
    by (rule take_add)
  ultimately show ?case by (simp add: mult.commute)
qed

text \<open>
  Claim C9. \<open>getDirectoryPath\<close> and \<open>getFilePath\<close> are functions of the identifier, the
  base directory and the depth alone (they read no state, so two calls with the same
  arguments give the same path). Let \<open>stripped\<close> be the identifier without its leading
  \<open>EQ\<close>, \<open>UQ\<close> or \<open>kQ\<close>, if it has one. For a digest of 32 hexadecimal characters and a
  depth from 1 to 16, which covers the configured range 2 to 6, the directory path is
  \<open>path.join\<close> of the base directory and exactly \<open>depth\<close> segments; segment \<open>i\<close> is the two
  characters of the digest of \<open>stripped\<close> at positions \<open>2i\<close> and \<open>2i + 1\<close>, so the segments
  are the first \<open>2 * depth\<close> characters of that digest cut into pairs. Without a depth,
  the two segments of depth 2 are used.
\<close>

theorem shardPath_segments:
  assumes strip: "stripped = (if prefix ''EQ'' addr \<or> prefix ''UQ'' addr \<or> prefix ''kQ'' addr
                              then drop 2 addr else addr)"
      and len: "length (md5_hex lib stripped) = 32"
      and hex: "list_all is_hex_lower (md5_hex lib stripped)"
      and lo: "1 \<le> depth" and hi: "depth \<le> 16"
  shows "getDirectoryPath lib addr baseDir (Some depth)
           = path_join lib (baseDir # directories lib addr (Some depth))
     \<and> getFilePath lib addr baseDir (Some depth)
           = path_join lib [getDirectoryPath lib addr baseDir (Some depth), inspectFileName addr]
     \<and> length (directories lib addr (Some depth)) = depth
     \<and> (\<forall>i < depth. directories lib addr (Some depth) ! i
                        = take 2 (drop (2 * i) (md5_hex lib stripped)))
     \<and> (\<forall>seg \<in> set (directories lib addr (Some depth)).
           length seg = 2 \<and> list_all is_hex_lower seg)
     \<and> concat (directories lib addr (Some depth)) = take (2 * depth) (md5_hex lib stripped)
     \<and> directories lib addr None = directories lib addr (Some 2)"
proof -
  let ?h = "md5_hex lib stripped"
  have c: "cleanAddress addr = stripped"
    by (simp add: cleanAddress_def strip)
  have d: "directories lib addr (Some depth) = map (\<lambda>i. take 2 (drop (i * 2) ?h)) [0..<depth]"
    using lo by (simp add: directories_def levels_or_default_def generateHash_def substring_def
        HASH_LENGTH_def Let_def c)
  have n: "length (directories lib addr (Some depth)) = depth"
    by (simp add: d)
  have nth: "\<forall>i < depth. directories lib addr (Some depth) ! i = take 2 (drop (2 * i) ?h)"
    by (simp add: d mult.commute)
  have seg: "\<forall>seg \<in> set (directories lib addr (Some depth)).
               length seg = 2 \<and> list_all is_hex_lower seg"
  proof
    fix seg assume "seg \<in> set (directories lib addr (Some depth))"
    then obtain i where i: "i < depth" and s: "seg = take 2 (drop (i * 2) ?h)"
      unfolding d by auto
    from i hi len have "length seg = 2"
      unfolding s by simp
    moreover have "set seg \<subseteq> set ?h"
      unfolding s by (meson set_drop_subset set_take_subset subset_trans)
    with hex have "list_all is_hex_lower seg"
      by (auto simp: list_all_iff)
    ultimately show "length seg = 2 \<and> list_all is_hex_lower seg"
      by simp
  qed
  have cc: "concat (directories lib addr (Some depth)) = take (2 * depth) ?h"
    unfolding d using hi len by (intro concat_segments) simp
  have dflt: "directories lib addr None = directories lib addr (Some 2)"
    by (simp add: directories_def levels_or_default_def MIN_DIRECTORY_LEVELS_def)
  show ?thesis
    using n nth seg cc dflt by (simp add: getDirectoryPath_def getFilePath_def)
qed

text \<open>
  A wallet address with the prefix \<open>EQ\<close> is filed under the digest of the address
  without the prefix, \<open>6a138e3a...\<close>, and not under the digest of the whole address,
  \<open>1b538ecd...\<close>; an address without such a prefix is hashed as it is.
\<close>

theorem shardPath_segments_witness:
  "''CD39VS5jcptHL8vMjEXrzGaRcCVYto7HUn4bpAOg8xqB2N''
     = (if prefix ''EQ'' ''EQCD39VS5jcptHL8vMjEXrzGaRcCVYto7HUn4bpAOg8xqB2N''
           \<or> prefix ''UQ'' ''EQCD39VS5jcptHL8vMjEXrzGaRcCVYto7HUn4bpAOg8xqB2N''
           \<or> prefix ''kQ'' ''EQCD39VS5jcptHL8vMjEXrzGaRcCVYto7HUn4bpAOg8xqB2N''
        then drop 2 ''EQCD39VS5jcptHL8vMjEXrzGaRcCVYto7HUn4bpAOg8xqB2N''
        else ''EQCD39VS5jcptHL8vMjEXrzGaRcCVYto7HUn4bpAOg8xqB2N'')
   \<and> md5_hex example_lib ''CD39VS5jcptHL8vMjEXrzGaRcCVYto7HUn4bpAOg8xqB2N''
        = ''6a138e3a4408aad75dd4eaaa19731489''
   \<and> length (md5_hex example_lib ''CD39VS5jcptHL8vMjEXrzGaRcCVYto7HUn4bpAOg8xqB2N'') = 32
   \<and> list_all is_hex_lower
        (md5_hex example_lib ''CD39VS5jcptHL8vMjEXrzGaRcCVYto7HUn4bpAOg8xqB2N'')
   \<and> (1::nat) \<le> 3 \<and> (3::nat) \<le> 16
   \<and> directories example_lib ''EQCD39VS5jcptHL8vMjEXrzGaRcCVYto7HUn4bpAOg8xqB2N'' (Some 3)
        = [''6a'', ''13'', ''8e'']
   \<and> getFilePath example_lib ''EQCD39VS5jcptHL8vMjEXrzGaRcCVYto7HUn4bpAOg8xqB2N'' ''data'' (Some 3)
        = ''data/6a/13/8e/inspect_EQCD39VS5jcptHL8vMjEXrzGaRcCVYto7HUn4bpAOg8xqB2N.json''
   \<and> directories example_lib ''0:aaaaaaaaaaaa'' (Some 3) = [''dc'', ''ed'', ''63'']"
proof -
  let ?a = "''EQCD39VS5jcptHL8vMjEXrzGaRcCVYto7HUn4bpAOg8xqB2N''"
  let ?s = "''CD39VS5jcptHL8vMjEXrzGaRcCVYto7HUn4bpAOg8xqB2N''"
  have strip: "?s = (if prefix ''EQ'' ?a \<or> prefix ''UQ'' ?a \<or> prefix ''kQ'' ?a
                     then drop 2 ?a else ?a)"
    by code_simp
  have md5: "md5_hex example_lib ?s = ''6a138e3a4408aad75dd4eaaa19731489''"
    by code_simp
  have len: "length (md5_hex example_lib ?s) = 32"
    by code_simp
  have hex: "list_all is_hex_lower (md5_hex example_lib ?s)"
    by code_simp
  have lo: "(1::nat) \<le> 3" and hi: "(3::nat) \<le> 16"
    by simp_all
  have p: "getFilePath example_lib ?a ''data'' (Some 3)
        = ''data/6a/13/8e/inspect_EQCD39VS5jcptHL8vMjEXrzGaRcCVYto7HUn4bpAOg8xqB2N.json''"
    by code_simp
  have strip0: "''0:aaaaaaaaaaaa''
      = (if prefix ''EQ'' ''0:aaaaaaaaaaaa'' \<or> prefix ''UQ'' ''0:aaaaaaaaaaaa''
            \<or> prefix ''kQ'' ''0:aaaaaaaaaaaa''
         then drop 2 ''0:aaaaaaaaaaaa'' else ''0:aaaaaaaaaaaa'')"
    by code_simp
  have len0: "length (md5_hex example_lib ''0:aaaaaaaaaaaa'') = 32"
    by code_simp
  have hex0: "list_all is_hex_lower (md5_hex example_lib ''0:aaaaaaaaaaaa'')"
    by code_simp
  have d: "directories example_lib ?a (Some 3) = [''6a'', ''13'', ''8e'']"
    by code_simp
  have d0: "directories example_lib ''0:aaaaaaaaaaaa'' (Some 3) = [''dc'', ''ed'', ''63'']"
    by code_simp
  note shardPath_segments [OF strip len hex lo hi, of "''data''"]
       shardPath_segments [OF strip0 len0 hex0 lo hi, of "''data''"]
  with strip md5 len hex lo hi d p d0 show ?thesis
    by blast
qed

section \<open>Properties of one iteration\<close>

subsection \<open>Effects of the disk functions\<close>

lemma perform_Inr:
  "perform operation d = Inr d1 \<Longrightarrow>
     d1 = (apply_op d operation)\<lparr>journal := journal d @ [operation]\<rparr>"
  by (auto simp: perform_def split: option.splits if_splits)

lemma perform_Inl:
  "perform operation d = Inl err \<longleftrightarrow>
     faulty d (op_target operation) = Some err \<and> raises operation (fst err)"
  by (auto simp: perform_def split: option.splits if_splits)

lemma apply_op_faulty [simp]: "faulty (apply_op d operation) = faulty d"
  by (cases operation) simp_all

lemma apply_op_journal [simp]: "journal (apply_op d operation) = journal d"
  by (cases operation) simp_all

lemma put_disk_simps [simp]:
  "disk (put_disk w d) = d"
  "addressFilter (put_disk w d) = addressFilter w"
  "scheduler (put_disk w d) = scheduler w"
  by (simp_all add: put_disk_def)

lemma put_disk_events:
  "journal d = journal (disk w) @ ops \<Longrightarrow> events (put_disk w d) = events w @ map EvDisk ops"
  by (simp add: put_disk_def)

lemma disk_ops_append [simp]: "disk_ops (xs @ ys) = disk_ops xs @ disk_ops ys"
  by (induction xs rule: disk_ops.induct) simp_all

lemma disk_ops_map_EvDisk [simp]: "disk_ops (map EvDisk ops) = ops"
  by (induction ops) simp_all

lemma ensureDirectoryExists_Inr:
  "ensureDirectoryExists d p = Inr d1 \<Longrightarrow>
     faulty d1 = faulty d \<and> files d1 = files d
     \<and> (\<exists>ops. journal d1 = journal d @ ops \<and> set ops \<subseteq> {OpMkdir p})
     \<and> (\<forall>q. q \<noteq> p \<longrightarrow> (q \<in> dirs d1) = (q \<in> dirs d))
     \<and> (case faulty d p of None \<Rightarrow> True | Some err \<Rightarrow> fst err = ''EEXIST'')"
  by (auto simp: ensureDirectoryExists_def fs_mkdir_recursive_def perform_def
      split: option.splits sum.splits if_splits)

lemma ensureDirectoryExists_Inl:
  "ensureDirectoryExists d p = Inl err \<longleftrightarrow> faulty d p = Some err \<and> fst err \<noteq> ''EEXIST''"
  by (auto simp: ensureDirectoryExists_def fs_mkdir_recursive_def perform_def
      split: option.splits sum.splits if_splits)

text \<open>One move of a task: what it does to the world.\<close>

lemma task_step_effect:
  assumes "task_step config lib net a t w = (t1, w1)"
  shows "faulty (disk w1) = faulty (disk w)
     \<and> scheduler w1 = scheduler w
     \<and> customSkipPatterns (addressFilter w1) = customSkipPatterns (addressFilter w)
     \<and> (\<exists>ops. events w1 = events w @ map EvDisk ops
              \<and> journal (disk w1) = journal (disk w) @ ops
              \<and> (\<forall>operation \<in> set ops. task_op config lib a operation))
     \<and> (\<forall>q. q \<noteq> getDirectoryPath lib a (dataDirectory config) None
            \<and> q \<noteq> getFilePath lib a (dataDirectory config) None
            \<longrightarrow> fs_pathExists (disk w1) q = fs_pathExists (disk w) q)"
proof (cases t)
  case Queued
  with assms show ?thesis
    by (auto simp: shouldProcessAddress_def skipAddress_def Let_def
        split: prod.splits if_splits option.splits)
next
  case AwaitPathExists
  with assms show ?thesis by (auto split: if_splits)
next
  case AwaitInspect
  with assms show ?thesis by (auto split: sum.splits)
next
  case (AwaitMkdir contractData)
  show ?thesis
  proof (cases "ensureDirectoryExists (disk w) (getDirectoryPath lib a (dataDirectory config) None)")
    case (Inl err)
    with assms AwaitMkdir show ?thesis by auto
  next
    case (Inr d1)
    from ensureDirectoryExists_Inr [OF Inr] obtain ops where
      f: "faulty d1 = faulty (disk w)" and fl: "files d1 = files (disk w)"
      and j: "journal d1 = journal (disk w) @ ops"
      and o: "set ops \<subseteq> {OpMkdir (getDirectoryPath lib a (dataDirectory config) None)}"
      and dd: "\<forall>q. q \<noteq> getDirectoryPath lib a (dataDirectory config) None
                  \<longrightarrow> (q \<in> dirs d1) = (q \<in> dirs (disk w))"
      by blast
    from assms AwaitMkdir Inr have w1: "w1 = put_disk w d1" by simp
    have "\<forall>operation \<in> set ops. task_op config lib a operation"
      using o by auto
    with w1 f j fl dd put_disk_events [OF j] show ?thesis
      by (auto simp: fs_pathExists_def)
  qed
next
  case (AwaitOpen contractData)
  let ?target = "getFilePath lib a (dataDirectory config) None"
  show ?thesis
  proof (cases "perform (OpOpenTrunc ?target) (disk w)")
    case (Inl err)
    with assms AwaitOpen show ?thesis by auto
  next
    case (Inr d1)
    from perform_Inr [OF Inr]
    have d1: "d1 = (apply_op (disk w) (OpOpenTrunc ?target))
                     \<lparr>journal := journal (disk w) @ [OpOpenTrunc ?target]\<rparr>" .
    then have j: "journal d1 = journal (disk w) @ [OpOpenTrunc ?target]" by simp
    from assms AwaitOpen Inr have w1: "w1 = put_disk w d1" by simp
    from w1 d1 put_disk_events [OF j] show ?thesis
      by (auto simp: fs_pathExists_def)
  qed
next
  case (AwaitWrite contractData)
  let ?target = "getFilePath lib a (dataDirectory config) None"
  let ?op = "OpWrite ?target (JSON_stringify lib contractData)"
  show ?thesis
  proof (cases "perform ?op (disk w)")
    case (Inl err)
    with assms AwaitWrite show ?thesis by auto
  next
    case (Inr d1)
    from perform_Inr [OF Inr]
    have d1: "d1 = (apply_op (disk w) ?op)\<lparr>journal := journal (disk w) @ [?op]\<rparr>" .
    then have j: "journal d1 = journal (disk w) @ [?op]" by simp
    from assms AwaitWrite Inr have w1: "w1 = put_disk w d1" by simp
    from w1 d1 put_disk_events [OF j] show ?thesis
      by (auto simp: fs_pathExists_def)
  qed
next
  case (Done r)
  with assms show ?thesis by auto
qed


subsection \<open>Invariants of a batch\<close>

lemma run_batch_invariant:
  assumes "I ts w"
    and "\<And>ts w i ts1 w1. I ts w \<Longrightarrow> can_move (maxConcurrentRequests config) ts i
           \<Longrightarrow> move config lib net accounts i ts w = (ts1, w1) \<Longrightarrow> I ts1 w1"
    and "\<And>ts w decisions. I ts w \<Longrightarrow> I ts (w\<lparr>scheduler := decisions\<rparr>)"
  shows "I (fst (run_batch config lib net accounts ts w))
           (snd (run_batch config lib net accounts ts w))"
  using assms
proof (induction config lib net accounts ts w rule: run_batch.induct)
  case (1 config lib net accounts ts w)
  note mv = "1.prems"(2) and sc = "1.prems"(3)
  show ?case
  proof (cases "list_all returned ts")
    case True
    with "1.prems"(1) show ?thesis
      by (simp add: run_batch.simps)
  next
    case nr: False
    show ?thesis
    proof (cases "scheduler w")
      case Nil
      show ?thesis
      proof (cases "find (can_move (maxConcurrentRequests config) ts) [0..<length ts]")
        case None
        with nr Nil "1.prems"(1) show ?thesis
          by (simp add: run_batch.simps [of config lib net accounts ts w])
      next
        case (Some i)
        then have c: "can_move (maxConcurrentRequests config) ts i"
          by (auto simp: find_Some_iff)
        obtain ts1 w1 where m: "move config lib net accounts i ts w = (ts1, w1)"
          by (cases "move config lib net accounts i ts w")
        from mv [OF "1.prems"(1) c m] have i1: "I ts1 w1" .
        have "I (fst (run_batch config lib net accounts ts1 w1))
                (snd (run_batch config lib net accounts ts1 w1))"
        proof (rule "1.IH"(1) [OF nr Nil Some m [symmetric] i1])
          fix ts w i ts1 w1
          assume "I ts w" "can_move (maxConcurrentRequests config) ts i"
            "move config lib net accounts i ts w = (ts1, w1)"
          then show "I ts1 w1" by (rule mv)
        next
          fix ts w decisions
          assume "I ts w"
          then show "I ts (w\<lparr>scheduler := decisions\<rparr>)" by (rule sc)
        qed
        with nr Nil Some m show ?thesis
          by (simp add: run_batch.simps [of config lib net accounts ts w])
      qed
    next
      case (Cons i decisions)
      from sc [OF "1.prems"(1)] have i0: "I ts (w\<lparr>scheduler := decisions\<rparr>)" .
      show ?thesis
      proof (cases "can_move (maxConcurrentRequests config) ts i")
        case c: True
        obtain ts1 w1 where
          m: "move config lib net accounts i ts (w\<lparr>scheduler := decisions\<rparr>) = (ts1, w1)"
          by (cases "move config lib net accounts i ts (w\<lparr>scheduler := decisions\<rparr>)")
        from mv [OF i0 c m] have i1: "I ts1 w1" .
        have "I (fst (run_batch config lib net accounts ts1 w1))
                (snd (run_batch config lib net accounts ts1 w1))"
        proof (rule "1.IH"(2) [OF nr Cons c m [symmetric] i1])
          fix ts w i ts1 w1
          assume "I ts w" "can_move (maxConcurrentRequests config) ts i"
            "move config lib net accounts i ts w = (ts1, w1)"
          then show "I ts1 w1" by (rule mv)
        next
          fix ts w decisions
          assume "I ts w"
          then show "I ts (w\<lparr>scheduler := decisions\<rparr>)" by (rule sc)
        qed
        with nr Cons c m show ?thesis
          by (simp add: run_batch.simps [of config lib net accounts ts w])
      next
        case c: False
        have "I (fst (run_batch config lib net accounts ts (w\<lparr>scheduler := decisions\<rparr>)))
                (snd (run_batch config lib net accounts ts (w\<lparr>scheduler := decisions\<rparr>)))"
        proof (rule "1.IH"(3) [OF nr Cons c i0])
          fix ts w i ts1 w1
          assume "I ts w" "can_move (maxConcurrentRequests config) ts i"
            "move config lib net accounts i ts w = (ts1, w1)"
          then show "I ts1 w1" by (rule mv)
        next
          fix ts w decisions
          assume "I ts w"
          then show "I ts (w\<lparr>scheduler := decisions\<rparr>)" by (rule sc)
        qed
        with nr Cons c show ?thesis
          by (simp add: run_batch.simps [of config lib net accounts ts w])
      qed
    qed
  qed
qed

text \<open>While a task has not returned, some task can move.\<close>

lemma some_task_can_move:
  assumes nr: "\<not> list_all returned ts" and lim: "1 \<le> limit"
  shows "\<exists>i < length ts. can_move limit ts i"
proof (cases "\<exists>i < length ts. active (ts ! i)")
  case True
  then obtain i where "i < length ts" "active (ts ! i)" by blast
  then have "can_move limit ts i"
    by (simp add: can_move_def active_def)
  with \<open>i < length ts\<close> show ?thesis by blast
next
  case False
  then have na: "\<forall>i < length ts. \<not> active (ts ! i)" by blast
  then have "filter active ts = []"
    by (auto simp: filter_empty_conv in_set_conv_nth)
  then have room: "length (filter active ts) < limit"
    using lim by simp
  from nr obtain k where k: "k < length ts" "\<not> returned (ts ! k)"
    by (auto simp: list_all_length)
  with na have "queued (ts ! k)"
    by (auto simp: active_def)
  define i where "i = (LEAST j. j < length ts \<and> queued (ts ! j))"
  have i: "i < length ts \<and> queued (ts ! i)"
    unfolding i_def using k(1) \<open>queued (ts ! k)\<close>
    by (rule_tac LeastI [of "\<lambda>j. j < length ts \<and> queued (ts ! j)" k]) simp
  have "\<not> queued (ts ! j)" if "j < i" for j
  proof
    assume q: "queued (ts ! j)"
    from that i have "j < length ts" by simp
    with q have "i \<le> j"
      unfolding i_def by (intro Least_le) simp
    with that show False by simp
  qed
  then have "list_all (\<lambda>t. \<not> queued t) (take i ts)"
    using i by (auto simp: list_all_length)
  with i room have "can_move limit ts i"
    by (simp add: can_move_def)
  with i show ?thesis by blast
qed

lemma run_batch_all_returned:
  assumes "1 \<le> maxConcurrentRequests config"
  shows "list_all returned (fst (run_batch config lib net accounts ts w))"
  using assms
proof (induction config lib net accounts ts w rule: run_batch.induct)
  case (1 config lib net accounts ts w)
  show ?case
  proof (cases "list_all returned ts")
    case True
    then show ?thesis
      by (simp add: run_batch.simps)
  next
    case nr: False
    show ?thesis
    proof (cases "scheduler w")
      case Nil
      show ?thesis
      proof (cases "find (can_move (maxConcurrentRequests config) ts) [0..<length ts]")
        case None
        from some_task_can_move [OF nr "1.prems"] None show ?thesis
          by (auto simp: find_None_iff)
      next
        case (Some i)
        obtain ts1 w1 where m: "move config lib net accounts i ts w = (ts1, w1)"
          by (cases "move config lib net accounts i ts w")
        from "1.IH"(1) [OF nr Nil Some m [symmetric] "1.prems"] nr Nil Some m show ?thesis
          by (simp add: run_batch.simps [of config lib net accounts ts w])
      qed
    next
      case (Cons i decisions)
      show ?thesis
      proof (cases "can_move (maxConcurrentRequests config) ts i")
        case c: True
        obtain ts1 w1 where
          m: "move config lib net accounts i ts (w\<lparr>scheduler := decisions\<rparr>) = (ts1, w1)"
          by (cases "move config lib net accounts i ts (w\<lparr>scheduler := decisions\<rparr>)")
        from "1.IH"(2) [OF nr Cons c m [symmetric] "1.prems"] nr Cons c m show ?thesis
          by (simp add: run_batch.simps [of config lib net accounts ts w])
      next
        case c: False
        from "1.IH"(3) [OF nr Cons c "1.prems"] nr Cons c show ?thesis
          by (simp add: run_batch.simps [of config lib net accounts ts w])
      qed
    qed
  qed
qed


subsection \<open>The trace of a batch\<close>

lemma can_move_not_returned:
  "can_move limit ts i \<Longrightarrow> i < length ts \<and> \<not> returned (ts ! i)"
  by (cases "ts ! i") (auto simp: can_move_def split: if_splits)

lemma move_trace:
  assumes m: "move config lib net accounts i ts w = (ts1, w1)"
  shows "\<exists>t ops tail.
           ts1 = ts[i := t]
         \<and> events w1 = events w @ map EvDisk ops @ tail
         \<and> journal (disk w1) = journal (disk w) @ ops
         \<and> (\<forall>operation \<in> set ops. task_op config lib (rawAddress (accounts ! i)) operation)
         \<and> ((\<exists>r. t = Done r \<and> tail = [EvTaskDone i r]) \<or> (\<not> returned t \<and> tail = []))"
proof -
  obtain t w2 where
    st: "task_step config lib net (rawAddress (accounts ! i)) (ts ! i) w = (t, w2)"
    by (cases "task_step config lib net (rawAddress (accounts ! i)) (ts ! i) w")
  from task_step_effect [OF st] obtain ops where
    e: "events w2 = events w @ map EvDisk ops"
    and j: "journal (disk w2) = journal (disk w) @ ops"
    and o: "\<forall>operation \<in> set ops. task_op config lib (rawAddress (accounts ! i)) operation"
    by blast
  show ?thesis
  proof (cases "returned t")
    case True
    then obtain r where r: "t = Done r" by (cases t) simp_all
    with m st have "ts1 = ts[i := t]" "w1 = w2\<lparr>events := events w2 @ [EvTaskDone i r]\<rparr>"
      by (simp_all add: move_def)
    with e j o r show ?thesis by auto
  next
    case False
    with m st have "ts1 = ts[i := t]" "w1 = w2"
      by (cases t; simp add: move_def)+
    with e j o False show ?thesis by auto
  qed
qed

lemma run_batch_trace:
  assumes len: "length ts0 = length accounts"
  shows "length (fst (run_batch config lib net accounts ts0 w0)) = length accounts
     \<and> (\<exists>evs. events (snd (run_batch config lib net accounts ts0 w0)) = events w0 @ evs
          \<and> journal (disk (snd (run_batch config lib net accounts ts0 w0)))
               = journal (disk w0) @ disk_ops evs
          \<and> (\<forall>operation. EvDisk operation \<in> set evs \<longrightarrow>
                (\<exists>a \<in> set accounts. task_op config lib (rawAddress a) operation))
          \<and> (\<forall>i r. EvTaskDone i r \<in> set evs \<longrightarrow>
                i < length accounts
              \<and> fst (run_batch config lib net accounts ts0 w0) ! i = Done r)
          \<and> (\<forall>i < length accounts. \<forall>r.
                fst (run_batch config lib net accounts ts0 w0) ! i = Done r \<longrightarrow>
                ts0 ! i = Done r \<or> EvTaskDone i r \<in> set evs))"
proof (rule run_batch_invariant
    [where I = "\<lambda>ts w. length ts = length accounts
     \<and> (\<exists>evs. events w = events w0 @ evs
          \<and> journal (disk w) = journal (disk w0) @ disk_ops evs
          \<and> (\<forall>operation. EvDisk operation \<in> set evs \<longrightarrow>
                (\<exists>a \<in> set accounts. task_op config lib (rawAddress a) operation))
          \<and> (\<forall>i r. EvTaskDone i r \<in> set evs \<longrightarrow> i < length accounts \<and> ts ! i = Done r)
          \<and> (\<forall>i < length accounts. \<forall>r. ts ! i = Done r \<longrightarrow>
                ts0 ! i = Done r \<or> EvTaskDone i r \<in> set evs))"], goal_cases)
  case 1
  have "events w0 = events w0 @ [] \<and> journal (disk w0) = journal (disk w0) @ disk_ops []"
    by simp
  with len show ?case by fastforce
next
  case (2 ts w i ts1 w1)
  from 2(1) obtain evs where
    l: "length ts = length accounts"
    and e: "events w = events w0 @ evs"
    and j: "journal (disk w) = journal (disk w0) @ disk_ops evs"
    and o: "\<forall>operation. EvDisk operation \<in> set evs \<longrightarrow>
                (\<exists>a \<in> set accounts. task_op config lib (rawAddress a) operation)"
    and d1: "\<forall>i r. EvTaskDone i r \<in> set evs \<longrightarrow> i < length accounts \<and> ts ! i = Done r"
    and d2: "\<forall>i < length accounts. \<forall>r. ts ! i = Done r \<longrightarrow>
                ts0 ! i = Done r \<or> EvTaskDone i r \<in> set evs"
    by blast
  from can_move_not_returned [OF 2(2)] have i: "i < length ts" and nr: "\<not> returned (ts ! i)"
    by simp_all
  from move_trace [OF 2(3)] obtain t ops tail where
    ts1: "ts1 = ts[i := t]"
    and e1: "events w1 = events w @ map EvDisk ops @ tail"
    and j1: "journal (disk w1) = journal (disk w) @ ops"
    and o1: "\<forall>operation \<in> set ops. task_op config lib (rawAddress (accounts ! i)) operation"
    and tl: "(\<exists>r. t = Done r \<and> tail = [EvTaskDone i r]) \<or> (\<not> returned t \<and> tail = [])"
    by blast
  let ?evs = "evs @ map EvDisk ops @ tail"
  from tl have dt: "disk_ops tail = []" by auto
  have a: "events w1 = events w0 @ ?evs"
    using e e1 by simp
  have b: "journal (disk w1) = journal (disk w0) @ disk_ops ?evs"
    using j j1 dt by simp
  from i l have "accounts ! i \<in> set accounts" by simp
  with o o1 tl have c: "\<forall>operation. EvDisk operation \<in> set ?evs \<longrightarrow>
                (\<exists>a \<in> set accounts. task_op config lib (rawAddress a) operation)"
    by auto
  have d: "\<forall>k r. EvTaskDone k r \<in> set ?evs \<longrightarrow> k < length accounts \<and> ts1 ! k = Done r"
  proof (intro allI impI)
    fix k r
    assume "EvTaskDone k r \<in> set ?evs"
    then consider "EvTaskDone k r \<in> set evs" | "EvTaskDone k r \<in> set tail"
      by auto
    then show "k < length accounts \<and> ts1 ! k = Done r"
    proof cases
      case 1
      with d1 have k: "k < length accounts" "ts ! k = Done r" by simp_all
      with nr have "k \<noteq> i" by auto
      with k ts1 show ?thesis by simp
    next
      case 2
      with tl have "k = i" "t = Done r" by auto
      with ts1 i l show ?thesis by simp
    qed
  qed
  have f: "\<forall>k < length accounts. \<forall>r. ts1 ! k = Done r \<longrightarrow>
                ts0 ! k = Done r \<or> EvTaskDone k r \<in> set ?evs"
  proof (intro allI impI)
    fix k r
    assume k: "k < length accounts" and r: "ts1 ! k = Done r"
    show "ts0 ! k = Done r \<or> EvTaskDone k r \<in> set ?evs"
    proof (cases "k = i")
      case True
      with r ts1 i have "t = Done r" by simp
      with tl True show ?thesis by auto
    next
      case False
      with r ts1 have "ts ! k = Done r" by simp
      with d2 k show ?thesis by auto
    qed
  qed
  from ts1 l have "length ts1 = length accounts" by simp
  with a b c d f show ?case by blast
next
  case (3 ts w decisions)
  then show ?case by simp
qed


subsection \<open>The cursor is written after the batch\<close>

lemma saveCursor_journal:
  "\<exists>ops. journal (snd (saveCursor lib d cf c)) = journal d @ ops
     \<and> set ops \<subseteq> {OpMkdir (path_dirname lib cf), OpOpenTrunc cf, OpWrite cf c}"
  by (auto simp: saveCursor_def fs_mkdir_recursive_def fs_writeFile_def perform_def
      split: option.splits sum.splits prod.splits)

lemma ensureDataDirectory_journal:
  "\<exists>ops. journal (snd (ensureDataDirectory d p)) = journal d @ ops \<and> set ops \<subseteq> {OpMkdir p}"
  by (auto simp: ensureDataDirectory_def fs_mkdir_recursive_def perform_def
      split: option.splits sum.splits prod.splits)

lemma results_of_returned:
  "list_all returned ts \<Longrightarrow> map Done (results_of ts) = ts"
  by (induction ts rule: results_of.induct) simp_all

lemma processAccountsBatch_trace:
  assumes lim: "1 \<le> maxConcurrentRequests config"
  shows "\<exists>evs. events (snd (processAccountsBatch config lib net w accounts)) = events w @ evs
          \<and> journal (disk (snd (processAccountsBatch config lib net w accounts)))
               = journal (disk w) @ disk_ops evs
          \<and> (\<forall>operation. EvDisk operation \<in> set evs \<longrightarrow>
                (\<exists>a \<in> set accounts. task_op config lib (rawAddress a) operation))
          \<and> (\<forall>i r. EvTaskDone i r \<in> set evs \<longrightarrow>
                i < length accounts
              \<and> fst (processAccountsBatch config lib net w accounts) ! i = r)
          \<and> (\<forall>i < length accounts.
                EvTaskDone i (fst (processAccountsBatch config lib net w accounts) ! i)
                  \<in> set evs)"
proof -
  let ?ts0 = "replicate (length accounts) (Queued :: 'a task)"
  let ?run = "run_batch config lib net accounts ?ts0 w"
  have b: "processAccountsBatch config lib net w accounts = (results_of (fst ?run), snd ?run)"
    by (cases ?run) (simp add: processAccountsBatch_def)
  from run_batch_all_returned [OF lim, of lib net accounts ?ts0 w]
  have ret: "list_all returned (fst ?run)" .
  from results_of_returned [OF ret] have ts: "fst ?run = map Done (results_of (fst ?run))"
    by simp
  from run_batch_trace [of ?ts0 accounts config lib net w] obtain evs where
    l: "length (fst ?run) = length accounts"
    and e: "events (snd ?run) = events w @ evs"
    and j: "journal (disk (snd ?run)) = journal (disk w) @ disk_ops evs"
    and o: "\<forall>operation. EvDisk operation \<in> set evs \<longrightarrow>
                (\<exists>a \<in> set accounts. task_op config lib (rawAddress a) operation)"
    and d1: "\<forall>i r. EvTaskDone i r \<in> set evs \<longrightarrow> i < length accounts \<and> fst ?run ! i = Done r"
    and d2: "\<forall>i < length accounts. \<forall>r. fst ?run ! i = Done r \<longrightarrow>
                ?ts0 ! i = Done r \<or> EvTaskDone i r \<in> set evs"
    by auto
  from l ts have lr: "length (results_of (fst ?run)) = length accounts"
    by (metis length_map)
  have nth: "fst ?run ! i = Done (results_of (fst ?run) ! i)" if "i < length accounts" for i
    using that lr ts by (metis nth_map)
  have a: "\<forall>i r. EvTaskDone i r \<in> set evs \<longrightarrow>
             i < length accounts \<and> results_of (fst ?run) ! i = r"
    using d1 nth by fastforce
  have c: "\<forall>i < length accounts. EvTaskDone i (results_of (fst ?run) ! i) \<in> set evs"
  proof (intro allI impI)
    fix i assume i: "i < length accounts"
    from d2 i nth [OF i]
    have "?ts0 ! i = Done (results_of (fst ?run) ! i)
            \<or> EvTaskDone i (results_of (fst ?run) ! i) \<in> set evs"
      by blast
    with i show "EvTaskDone i (results_of (fst ?run) ! i) \<in> set evs"
      by simp
  qed
  from e j o a c show ?thesis
    unfolding b by auto
qed

lemma task_op_touches:
  "task_op config lib a operation \<Longrightarrow> touches target operation
     \<Longrightarrow> getFilePath lib a (dataDirectory config) None = target"
  by (cases operation) auto


text \<open>
  Claim C1. In every execution of \<open>runIteration\<close>, with \<open>maxConcurrentRequests\<close> at
  least 1 as \<open>loadConfig\<close> requires and under every scheduling of the tasks, the events
  that the iteration adds, and with them the operations that it adds to the journal of
  the disk, come in three parts. First the creation of the data directory. Then the
  batch of the page that was fetched at the cursor read from the disk: its only disk
  operations are those of the tasks of the page, each on the directory or the file of
  its own address, and every task of the page returns in it. Last the operations of
  \<open>saveCursor\<close>, on the cursor file and its directory, with the \<open>endCursor\<close> of that page.
  So the cursor is not written before every task of the page has returned: unless the
  file of an account is the cursor file itself, no operation before the end of the batch
  touches the cursor file. An iteration that stops before the batch performs no
  operation of \<open>saveCursor\<close>.
\<close>

theorem cursor_written_after_every_task:
  assumes lim: "1 \<le> maxConcurrentRequests config"
  shows "\<exists>pre_ops batch_evs cursor_ops.
       events (snd (runIteration config lib net w))
         = events w @ map EvDisk pre_ops @ batch_evs @ map EvDisk cursor_ops
     \<and> journal (disk (snd (runIteration config lib net w)))
         = journal (disk w) @ pre_ops @ disk_ops batch_evs @ cursor_ops
     \<and> set pre_ops \<subseteq> {OpMkdir (dataDirectory config)}
     \<and> (batch_evs = [] \<and> cursor_ops = []
        \<or> (\<exists>cursor response.
              readCursor (snd (ensureDataDirectory (disk w) (dataDirectory config)))
                (cursorFilePath config) = Inr cursor
            \<and> fetchAccounts net (accountsPerPage config) cursor = Inr response
            \<and> (\<forall>operation. EvDisk operation \<in> set batch_evs \<longrightarrow>
                  (\<exists>a \<in> set (nodes response). task_op config lib (rawAddress a) operation))
            \<and> (\<forall>i r. EvTaskDone i r \<in> set batch_evs \<longrightarrow> i < length (nodes response))
            \<and> (\<forall>i < length (nodes response). \<exists>r. EvTaskDone i r \<in> set batch_evs)
            \<and> set cursor_ops \<subseteq> {OpMkdir (path_dirname lib (cursorFilePath config)),
                                  OpOpenTrunc (cursorFilePath config),
                                  OpWrite (cursorFilePath config)
                                    (the (endCursor (pageInfo response)))}
            \<and> ((\<forall>a \<in> set (nodes response).
                    getFilePath lib (rawAddress a) (dataDirectory config) None
                      \<noteq> cursorFilePath config) \<longrightarrow>
                 (\<forall>operation. EvDisk operation \<in> set batch_evs \<longrightarrow>
                    \<not> touches (cursorFilePath config) operation))))"
proof -
  let ?P = "\<lambda>w3 pre_ops batch_evs cursor_ops.
       events w3 = events w @ map EvDisk pre_ops @ batch_evs @ map EvDisk cursor_ops
     \<and> journal (disk w3) = journal (disk w) @ pre_ops @ disk_ops batch_evs @ cursor_ops
     \<and> set pre_ops \<subseteq> {OpMkdir (dataDirectory config)}"
  obtain made disk1 where
    ed: "ensureDataDirectory (disk w) (dataDirectory config) = (made, disk1)"
    by (cases "ensureDataDirectory (disk w) (dataDirectory config)")
  from ensureDataDirectory_journal [of "disk w" "dataDirectory config"] ed
  obtain pre_ops where
    j1: "journal disk1 = journal (disk w) @ pre_ops"
    and p1: "set pre_ops \<subseteq> {OpMkdir (dataDirectory config)}"
    by auto
  let ?w1 = "put_disk w disk1"
  from put_disk_events [OF j1] have e1: "events ?w1 = events w @ map EvDisk pre_ops" .
  have stop: ?thesis if "snd (runIteration config lib net w) = ?w1"
  proof -
    from that e1 j1 p1 have "?P (snd (runIteration config lib net w)) pre_ops [] []"
      by simp
    then show ?thesis by blast
  qed
  show ?thesis
  proof (cases made)
    case (Inl msg)
    with ed have "snd (runIteration config lib net w) = ?w1"
      by (simp add: runIteration_def)
    then show ?thesis by (rule stop)
  next
    case (Inr u)
    show ?thesis
    proof (cases "readCursor disk1 (cursorFilePath config)")
      case (Inl msg)
      with ed Inr have "snd (runIteration config lib net w) = ?w1"
        by (simp add: runIteration_def)
      then show ?thesis by (rule stop)
    next
      case rc: (Inr cursor)
      show ?thesis
      proof (cases "fetchAccounts net (accountsPerPage config) cursor")
        case (Inl msg)
        with ed Inr rc have "snd (runIteration config lib net w) = ?w1"
          by (simp add: runIteration_def)
        then show ?thesis by (rule stop)
      next
        case fa: (Inr response)
        show ?thesis
        proof (cases "nodes response = []")
          case True
          with ed Inr rc fa have "snd (runIteration config lib net w) = ?w1"
            by (simp add: runIteration_def)
          then show ?thesis by (rule stop)
        next
          case ne: False
          let ?cf = "cursorFilePath config"
          let ?c = "the (endCursor (pageInfo response))"
          obtain results w2 where
            b: "processAccountsBatch config lib net ?w1 (nodes response) = (results, w2)"
            by (cases "processAccountsBatch config lib net ?w1 (nodes response)")
          from processAccountsBatch_trace [OF lim, of lib net ?w1 "nodes response"] b
          obtain batch_evs where
            e2: "events w2 = events ?w1 @ batch_evs"
            and j2': "journal (disk w2) = journal (disk ?w1) @ disk_ops batch_evs"
            and o2: "\<forall>operation. EvDisk operation \<in> set batch_evs \<longrightarrow>
                  (\<exists>a \<in> set (nodes response). task_op config lib (rawAddress a) operation)"
            and d2': "\<forall>i r. EvTaskDone i r \<in> set batch_evs \<longrightarrow>
                        i < length (nodes response) \<and> results ! i = r"
            and r2': "\<forall>i < length (nodes response). EvTaskDone i (results ! i) \<in> set batch_evs"
            by (simp del: put_disk_simps) blast
          from j2' have j2: "journal (disk w2) = journal disk1 @ disk_ops batch_evs"
            by simp
          from d2' have d2: "\<forall>i r. EvTaskDone i r \<in> set batch_evs \<longrightarrow> i < length (nodes response)"
            by blast
          from r2' have r2: "\<forall>i < length (nodes response). \<exists>r. EvTaskDone i r \<in> set batch_evs"
            by blast
          have "\<exists>cursor_ops. ?P (snd (runIteration config lib net w)) pre_ops batch_evs cursor_ops
                  \<and> set cursor_ops \<subseteq> {OpMkdir (path_dirname lib ?cf), OpOpenTrunc ?cf,
                                        OpWrite ?cf ?c}"
          proof (cases "truthy_str (endCursor (pageInfo response))")
            case False
            with ed Inr rc fa ne b have "snd (runIteration config lib net w) = w2"
              by (simp add: runIteration_def)
            with e1 e2 j1 j2 p1 have "?P (snd (runIteration config lib net w)) pre_ops batch_evs []"
              by simp
            then show ?thesis by (intro exI [of _ "[]"]) simp
          next
            case True
            obtain saved disk3 where s: "saveCursor lib (disk w2) ?cf ?c = (saved, disk3)"
              by (cases "saveCursor lib (disk w2) ?cf ?c")
            from ed Inr rc fa ne b True s
            have w3: "snd (runIteration config lib net w) = put_disk w2 disk3"
              by (cases saved) (simp_all add: runIteration_def)
            from saveCursor_journal [of lib "disk w2" ?cf ?c] s obtain cursor_ops where
              j3: "journal disk3 = journal (disk w2) @ cursor_ops"
              and c3: "set cursor_ops \<subseteq> {OpMkdir (path_dirname lib ?cf), OpOpenTrunc ?cf,
                                           OpWrite ?cf ?c}"
              by auto
            from put_disk_events [OF j3]
            have e3: "events (put_disk w2 disk3) = events w2 @ map EvDisk cursor_ops" .
            from w3 e1 e2 e3 j1 j2 j3 p1
            have "?P (snd (runIteration config lib net w)) pre_ops batch_evs cursor_ops"
              by simp
            with c3 show ?thesis by blast
          qed
          then obtain cursor_ops where
            p: "?P (snd (runIteration config lib net w)) pre_ops batch_evs cursor_ops"
            and c: "set cursor_ops \<subseteq> {OpMkdir (path_dirname lib ?cf), OpOpenTrunc ?cf,
                                       OpWrite ?cf ?c}"
            by blast
          have t: "(\<forall>a \<in> set (nodes response).
                      getFilePath lib (rawAddress a) (dataDirectory config) None \<noteq> ?cf) \<longrightarrow>
                   (\<forall>operation. EvDisk operation \<in> set batch_evs \<longrightarrow>
                      \<not> touches ?cf operation)"
            using o2 task_op_touches by blast
          from ed rc
          have rc1: "readCursor (snd (ensureDataDirectory (disk w) (dataDirectory config))) ?cf
                       = Inr cursor"
            by simp
          from p c rc1 fa o2 d2 r2 t show ?thesis
            by blast
        qed
      qed
    qed
  qed
qed


text \<open>
  The page of three accounts on an empty disk, under a scheduler that interleaves the
  three tasks: the first and the third write their files and return while the second
  still waits for the network, and the cursor file is opened only after the three
  returns.
\<close>

theorem cursor_written_after_every_task_witness:
  "1 \<le> maxConcurrentRequests example_config
   \<and> events (snd (runIteration example_config example_lib example_net example_world))
       = [EvDisk (OpMkdir ''data''), EvDisk (OpMkdir ''data/dc/ed''),
          EvDisk (OpMkdir ''data/57/9c''),
          EvDisk (OpOpenTrunc ''data/dc/ed/inspect_0_aaaaaaaaaaaa.json''),
          EvDisk (OpOpenTrunc ''data/57/9c/inspect_0_cccccccccccc.json''),
          EvDisk (OpWrite ''data/dc/ed/inspect_0_aaaaaaaaaaaa.json'' ''{}''),
          EvTaskDone 0
            \<lparr>address = ''0:aaaaaaaaaaaa'', success = True, error = None, skipped = None,
             filePath = Some ''data/dc/ed/inspect_0_aaaaaaaaaaaa.json''\<rparr>,
          EvDisk (OpWrite ''data/57/9c/inspect_0_cccccccccccc.json'' ''{}''),
          EvTaskDone 2
            \<lparr>address = ''0:cccccccccccc'', success = True, error = None, skipped = None,
             filePath = Some ''data/57/9c/inspect_0_cccccccccccc.json''\<rparr>,
          EvTaskDone 1
            \<lparr>address = ''0:bbbbbbbbbbbb'', success = False,
             error = Some ''API error (500): HTTP 500'', skipped = None, filePath = None\<rparr>,
          EvDisk (OpMkdir ''.''), EvDisk (OpOpenTrunc ''cursor.txt''),
          EvDisk (OpWrite ''cursor.txt'' ''c1'')]
   \<and> (\<exists>pre_ops batch_evs cursor_ops.
         events (snd (runIteration example_config example_lib example_net example_world))
           = map EvDisk pre_ops @ batch_evs @ map EvDisk cursor_ops
       \<and> journal (disk (snd (runIteration example_config example_lib example_net example_world)))
           = pre_ops @ disk_ops batch_evs @ cursor_ops
       \<and> set pre_ops \<subseteq> {OpMkdir ''data''}
       \<and> (\<forall>i < 3. \<exists>r. EvTaskDone i r \<in> set batch_evs)
       \<and> (\<forall>operation. EvDisk operation \<in> set batch_evs \<longrightarrow>
             \<not> touches ''cursor.txt'' operation)
       \<and> set cursor_ops \<subseteq> {OpMkdir ''.'', OpOpenTrunc ''cursor.txt'',
                             OpWrite ''cursor.txt'' ''c1''})"
proof -
  let ?run = "runIteration example_config example_lib example_net example_world"
  let ?page = "\<lparr>pageInfo = \<lparr>hasNextPage = False, endCursor = Some ''c1''\<rparr>,
                 nodes = [\<lparr>rawAddress = ''0:aaaaaaaaaaaa''\<rparr>, \<lparr>rawAddress = ''0:bbbbbbbbbbbb''\<rparr>,
                          \<lparr>rawAddress = ''0:cccccccccccc''\<rparr>]\<rparr>"
  have lim: "1 \<le> maxConcurrentRequests example_config"
    by code_simp
  have ev: "events (snd ?run)
       = [EvDisk (OpMkdir ''data''), EvDisk (OpMkdir ''data/dc/ed''),
          EvDisk (OpMkdir ''data/57/9c''),
          EvDisk (OpOpenTrunc ''data/dc/ed/inspect_0_aaaaaaaaaaaa.json''),
          EvDisk (OpOpenTrunc ''data/57/9c/inspect_0_cccccccccccc.json''),
          EvDisk (OpWrite ''data/dc/ed/inspect_0_aaaaaaaaaaaa.json'' ''{}''),
          EvTaskDone 0
            \<lparr>address = ''0:aaaaaaaaaaaa'', success = True, error = None, skipped = None,
             filePath = Some ''data/dc/ed/inspect_0_aaaaaaaaaaaa.json''\<rparr>,
          EvDisk (OpWrite ''data/57/9c/inspect_0_cccccccccccc.json'' ''{}''),
          EvTaskDone 2
            \<lparr>address = ''0:cccccccccccc'', success = True, error = None, skipped = None,
             filePath = Some ''data/57/9c/inspect_0_cccccccccccc.json''\<rparr>,
          EvTaskDone 1
            \<lparr>address = ''0:bbbbbbbbbbbb'', success = False,
             error = Some ''API error (500): HTTP 500'', skipped = None, filePath = None\<rparr>,
          EvDisk (OpMkdir ''.''), EvDisk (OpOpenTrunc ''cursor.txt''),
          EvDisk (OpWrite ''cursor.txt'' ''c1'')]"
    by code_simp
  have e0: "events example_world = []" and j0: "journal (disk example_world) = []"
    by code_simp+
  have dd: "dataDirectory example_config = ''data''"
    and cf: "cursorFilePath example_config = ''cursor.txt''"
    and dn: "path_dirname example_lib ''cursor.txt'' = ''.''"
    by code_simp+
  have rc: "readCursor (snd (ensureDataDirectory (disk example_world) ''data'')) ''cursor.txt''
              = Inr None"
    by code_simp
  have fa: "fetchAccounts example_net (accountsPerPage example_config) None = Inr ?page"
    by code_simp
  have apart: "\<forall>a \<in> set (nodes ?page).
                 getFilePath example_lib (rawAddress a) ''data'' None \<noteq> ''cursor.txt''"
    by code_simp
  from cursor_written_after_every_task
         [OF lim, of example_lib example_net example_world, unfolded e0 j0 dd cf dn append_Nil]
  obtain pre_ops batch_evs cursor_ops where
    a: "events (snd ?run) = map EvDisk pre_ops @ batch_evs @ map EvDisk cursor_ops"
    and b: "journal (disk (snd ?run)) = pre_ops @ disk_ops batch_evs @ cursor_ops"
    and c: "set pre_ops \<subseteq> {OpMkdir ''data''}"
    and d: "batch_evs = [] \<and> cursor_ops = []
        \<or> (\<exists>cursor response.
              readCursor (snd (ensureDataDirectory (disk example_world) ''data'')) ''cursor.txt''
                = Inr cursor
            \<and> fetchAccounts example_net (accountsPerPage example_config) cursor = Inr response
            \<and> (\<forall>operation. EvDisk operation \<in> set batch_evs \<longrightarrow>
                  (\<exists>a \<in> set (nodes response).
                      task_op example_config example_lib (rawAddress a) operation))
            \<and> (\<forall>i r. EvTaskDone i r \<in> set batch_evs \<longrightarrow> i < length (nodes response))
            \<and> (\<forall>i < length (nodes response). \<exists>r. EvTaskDone i r \<in> set batch_evs)
            \<and> set cursor_ops \<subseteq> {OpMkdir ''.'', OpOpenTrunc ''cursor.txt'',
                                  OpWrite ''cursor.txt'' (the (endCursor (pageInfo response)))}
            \<and> ((\<forall>a \<in> set (nodes response).
                    getFilePath example_lib (rawAddress a) ''data'' None \<noteq> ''cursor.txt'') \<longrightarrow>
                 (\<forall>operation. EvDisk operation \<in> set batch_evs \<longrightarrow>
                    \<not> touches ''cursor.txt'' operation)))"
    by blast
  have "\<not> (batch_evs = [] \<and> cursor_ops = [])"
  proof
    assume "batch_evs = [] \<and> cursor_ops = []"
    with a have "events (snd ?run) = map EvDisk pre_ops" by simp
    moreover have "EvTaskDone 1
            \<lparr>address = ''0:bbbbbbbbbbbb'', success = False,
             error = Some ''API error (500): HTTP 500'', skipped = None, filePath = None\<rparr>
          \<in> set (events (snd ?run))"
      unfolding ev by simp
    ultimately show False by auto
  qed
  with d rc fa obtain
    r: "\<forall>i < length (nodes ?page). \<exists>r. EvTaskDone i r \<in> set batch_evs"
    and s: "set cursor_ops \<subseteq> {OpMkdir ''.'', OpOpenTrunc ''cursor.txt'',
                                OpWrite ''cursor.txt'' (the (endCursor (pageInfo ?page)))}"
    and t: "(\<forall>a \<in> set (nodes ?page).
                    getFilePath example_lib (rawAddress a) ''data'' None \<noteq> ''cursor.txt'') \<longrightarrow>
                 (\<forall>operation. EvDisk operation \<in> set batch_evs \<longrightarrow>
                    \<not> touches ''cursor.txt'' operation)"
    by auto
  from r have r3: "\<forall>i < 3. \<exists>r. EvTaskDone i r \<in> set batch_evs"
    by simp
  from s have s3: "set cursor_ops \<subseteq> {OpMkdir ''.'', OpOpenTrunc ''cursor.txt'',
                                      OpWrite ''cursor.txt'' ''c1''}"
    by simp
  from t apart have t3: "\<forall>operation. EvDisk operation \<in> set batch_evs \<longrightarrow>
                           \<not> touches ''cursor.txt'' operation"
    by blast
  from a b c r3 s3 t3
  have "\<exists>pre_ops batch_evs cursor_ops.
         events (snd ?run) = map EvDisk pre_ops @ batch_evs @ map EvDisk cursor_ops
       \<and> journal (disk (snd ?run)) = pre_ops @ disk_ops batch_evs @ cursor_ops
       \<and> set pre_ops \<subseteq> {OpMkdir ''data''}
       \<and> (\<forall>i < 3. \<exists>r. EvTaskDone i r \<in> set batch_evs)
       \<and> (\<forall>operation. EvDisk operation \<in> set batch_evs \<longrightarrow>
             \<not> touches ''cursor.txt'' operation)
       \<and> set cursor_ops \<subseteq> {OpMkdir ''.'', OpOpenTrunc ''cursor.txt'',
                             OpWrite ''cursor.txt'' ''c1''}"
    by blast
  with lim ev show ?thesis
    by blast
qed


subsection \<open>The outcome of every task of a batch\<close>

lemma shouldProcessAddress_decision:
  "customSkipPatterns f = customSkipPatterns g \<Longrightarrow>
     fst (shouldProcessAddress lib f a) = fst (shouldProcessAddress lib g a)"
  by (simp add: shouldProcessAddress_def skipAddress_def Let_def split: option.splits)

lemma shouldProcessAddress_patterns:
  "customSkipPatterns (snd (shouldProcessAddress lib f a)) = customSkipPatterns f"
  by (simp add: shouldProcessAddress_def skipAddress_def Let_def split: option.splits)

text \<open>What \<open>saveContractData\<close> returns is decided by the faults of the disk.\<close>

lemma saveContractData_outcome:
  "fst (saveContractData lib d dataDir a payload None)
     = (if (\<exists>err. faulty d (getDirectoryPath lib a dataDir None) = Some err
                 \<and> fst err \<noteq> ''EEXIST'')
        then Inl (''Failed to save contract data for '' @ a @ '': ''
                    @ snd (the (faulty d (getDirectoryPath lib a dataDir None))))
        else (case faulty d (getFilePath lib a dataDir None) of
                Some err \<Rightarrow> Inl (''Failed to save contract data for '' @ a @ '': '' @ snd err)
              | None \<Rightarrow> Inr (getFilePath lib a dataDir None)))"
  by (auto simp: saveContractData_def prepareFilePath_def ensureDirectoryExists_def
      fs_mkdir_recursive_def fs_writeFile_def perform_def getFilePath_def Let_def
      split: option.splits sum.splits prod.splits if_splits)

lemma processAccount_outcome:
  "fst (processAccount config lib net w a)
     = (if \<not> shouldProcess (fst (shouldProcessAddress lib (addressFilter w) a)) then
          \<lparr>address = a, success = True,
           error = Some (''Filtered: '' @
                     (case skipReason (fst (shouldProcessAddress lib (addressFilter w) a)) of
                        Some reason \<Rightarrow> reason
                      | None \<Rightarrow> ''undefined'')),
           skipped = Some True, filePath = None\<rparr>
        else if fs_pathExists (disk w) (getFilePath lib a (dataDirectory config) None) then
          \<lparr>address = a, success = True, error = None, skipped = Some True, filePath = None\<rparr>
        else
          (case inspectContract net a of
             Inl msg \<Rightarrow>
               \<lparr>address = a, success = False, error = Some msg, skipped = None,
                filePath = None\<rparr>
           | Inr payload \<Rightarrow>
               (case fst (saveContractData lib (disk w) (dataDirectory config) a payload None) of
                  Inl msg \<Rightarrow>
                    \<lparr>address = a, success = False, error = Some msg, skipped = None,
                     filePath = None\<rparr>
                | Inr target \<Rightarrow>
                    \<lparr>address = a, success = True, error = None, skipped = None,
                     filePath = Some target\<rparr>)))"
  by (cases "shouldProcessAddress lib (addressFilter w) a";
      cases "inspectContract net a";
      cases "saveContractData lib (disk w) (dataDirectory config) a (projr (inspectContract net a)) None")
     (auto simp: processAccount_def processAccount_try_def contractFileExists_def Let_def
       split: sum.splits)

text \<open>
  The result of \<open>processAccount\<close> depends on the world only through the patterns of the
  filter, the faults of the disk, and whether the file of the address exists.
\<close>

lemma processAccount_result_cong:
  assumes "customSkipPatterns (addressFilter w) = customSkipPatterns (addressFilter v)"
    and "faulty (disk w) = faulty (disk v)"
    and "fs_pathExists (disk w) (getFilePath lib a (dataDirectory config) None)
           = fs_pathExists (disk v) (getFilePath lib a (dataDirectory config) None)"
  shows "fst (processAccount config lib net w a) = fst (processAccount config lib net v a)"
proof -
  have s: "fst (saveContractData lib (disk w) (dataDirectory config) a payload None)
         = fst (saveContractData lib (disk v) (dataDirectory config) a payload None)"
    for payload
    unfolding saveContractData_outcome assms(2) ..
  show ?thesis
    unfolding processAccount_outcome s assms(3)
      shouldProcessAddress_decision [OF assms(1), of lib a] ..
qed


lemma perform_Inr_faulty:
  "perform operation d = Inr d1 \<Longrightarrow>
     \<forall>err. faulty d (op_target operation) = Some err \<longrightarrow> \<not> raises operation (fst err)"
  by (auto simp: perform_def split: option.splits if_splits)

lemma move_world:
  assumes "move config lib net accounts i ts w = (ts1, w1)"
  shows "\<exists>t w2. task_step config lib net (rawAddress (accounts ! i)) (ts ! i) w = (t, w2)
           \<and> ts1 = ts[i := t] \<and> disk w1 = disk w2 \<and> addressFilter w1 = addressFilter w2"
proof -
  obtain t w2 where
    st: "task_step config lib net (rawAddress (accounts ! i)) (ts ! i) w = (t, w2)"
    by (cases "task_step config lib net (rawAddress (accounts ! i)) (ts ! i) w")
  with assms have "ts1 = ts[i := t] \<and> disk w1 = disk w2 \<and> addressFilter w1 = addressFilter w2"
    by (cases t) (auto simp: move_def)
  with st show ?thesis by blast
qed

lemma undisturbed_paths:
  assumes "undisturbed config lib accounts k" "i < length accounts" "i \<noteq> k"
  shows "getFilePath lib (rawAddress (accounts ! k)) (dataDirectory config) None
           \<noteq> getFilePath lib (rawAddress (accounts ! i)) (dataDirectory config) None
       \<and> getFilePath lib (rawAddress (accounts ! k)) (dataDirectory config) None
           \<noteq> getDirectoryPath lib (rawAddress (accounts ! i)) (dataDirectory config) None"
  using assms by (auto simp: undisturbed_def list_all_iff)

text \<open>
  The result of every task is the one that \<open>processAccount\<close> gives for its address on a
  disk with the faults of the disk the batch started on; when no other task of the page
  works at the path of its file, that disk has the file exactly if it was there when the
  batch started.
\<close>

lemma run_batch_outcomes:
  fixes config :: IndexerConfig and lib :: "('d, 'x) Platform_scheme"
    and net :: "('d, 'y) Clients_scheme" and accounts :: "AccountNode list" and w0 :: World
  defines "run \<equiv> run_batch config lib net accounts (replicate (length accounts) Queued) w0"
  shows "length (fst run) = length accounts
     \<and> (\<forall>i < length accounts. \<forall>r. fst run ! i = Done r \<longrightarrow>
          (\<exists>d. faulty d = faulty (disk w0)
              \<and> (undisturbed config lib accounts i \<longrightarrow>
                   fs_pathExists d (getFilePath lib (rawAddress (accounts ! i))
                                      (dataDirectory config) None)
                     = fs_pathExists (disk w0) (getFilePath lib (rawAddress (accounts ! i))
                                                  (dataDirectory config) None))
              \<and> r = fst (processAccount config lib net (w0\<lparr>disk := d\<rparr>)
                            (rawAddress (accounts ! i)))))"
proof -
  define a where "a = (\<lambda>i. rawAddress (accounts ! i))"
  define tgt where "tgt = (\<lambda>i. getFilePath lib (a i) (dataDirectory config) None)"
  define dir where "dir = (\<lambda>i. getDirectoryPath lib (a i) (dataDirectory config) None)"
  define keep where
    "keep = (\<lambda>i. shouldProcess (fst (shouldProcessAddress lib (addressFilter w0) (a i))))"
  define G where "G = (\<lambda>i d. faulty d = faulty (disk w0)
       \<and> (undisturbed config lib accounts i \<longrightarrow>
            fs_pathExists d (tgt i) = fs_pathExists (disk w0) (tgt i)))"
  define out where "out = (\<lambda>i d. fst (processAccount config lib net (w0\<lparr>disk := d\<rparr>) (a i)))"
  define mkdir_ok where
    "mkdir_ok = (\<lambda>i. \<forall>err. faulty (disk w0) (dir i) = Some err \<longrightarrow> fst err = ''EEXIST'')"
  define open_ok where
    "open_ok = (\<lambda>i. \<forall>err. faulty (disk w0) (tgt i) = Some err \<longrightarrow> write_error (fst err))"
  define track where "track = (\<lambda>i (t :: 'd task) dcur. case t of
       Queued \<Rightarrow> G i dcur
     | AwaitPathExists \<Rightarrow> keep i \<and> G i dcur
     | AwaitInspect \<Rightarrow> (\<exists>d. G i d \<and> keep i \<and> \<not> fs_pathExists d (tgt i))
     | AwaitMkdir c \<Rightarrow>
         (\<exists>d. G i d \<and> keep i \<and> \<not> fs_pathExists d (tgt i) \<and> inspectContract net (a i) = Inr c)
     | AwaitOpen c \<Rightarrow>
         (\<exists>d. G i d \<and> keep i \<and> \<not> fs_pathExists d (tgt i) \<and> inspectContract net (a i) = Inr c
             \<and> mkdir_ok i)
     | AwaitWrite c \<Rightarrow>
         (\<exists>d. G i d \<and> keep i \<and> \<not> fs_pathExists d (tgt i) \<and> inspectContract net (a i) = Inr c
             \<and> mkdir_ok i \<and> open_ok i)
     | Done r \<Rightarrow> (\<exists>d. G i d \<and> r = out i d))"
  define I where "I = (\<lambda>(ts :: 'd task list) (w :: World).
       length ts = length accounts
     \<and> faulty (disk w) = faulty (disk w0)
     \<and> customSkipPatterns (addressFilter w) = customSkipPatterns (addressFilter w0)
     \<and> (\<forall>i < length accounts. track i (ts ! i) (disk w)))"

  have out_eq: "out i d
     = (if \<not> keep i then
          \<lparr>address = a i, success = True,
           error = Some (''Filtered: '' @
                     (case skipReason (fst (shouldProcessAddress lib (addressFilter w0) (a i))) of
                        Some reason \<Rightarrow> reason
                      | None \<Rightarrow> ''undefined'')),
           skipped = Some True, filePath = None\<rparr>
        else if fs_pathExists d (tgt i) then
          \<lparr>address = a i, success = True, error = None, skipped = Some True, filePath = None\<rparr>
        else
          (case inspectContract net (a i) of
             Inl msg \<Rightarrow>
               \<lparr>address = a i, success = False, error = Some msg, skipped = None,
                filePath = None\<rparr>
           | Inr payload \<Rightarrow>
               (if \<not> mkdir_ok i then save_failed (a i) (the (faulty (disk w0) (dir i)))
                else
                  (case faulty (disk w0) (tgt i) of
                     Some err \<Rightarrow> save_failed (a i) err
                   | None \<Rightarrow>
                       \<lparr>address = a i, success = True, error = None, skipped = None,
                        filePath = Some (tgt i)\<rparr>))))"
    if "faulty d = faulty (disk w0)" for i d
    unfolding out_def processAccount_outcome saveContractData_outcome
    using that
    by (auto simp: keep_def tgt_def dir_def mkdir_ok_def save_failed_def
        split: sum.splits option.splits)

  have step: "track i t1 (disk w1)"
    if tr: "track i t (disk w)"
      and f: "faulty (disk w) = faulty (disk w0)"
      and p: "customSkipPatterns (addressFilter w) = customSkipPatterns (addressFilter w0)"
      and st: "task_step config lib net (a i) t w = (t1, w1)"
    for i t t1 w w1
  proof (cases t)
    case Queued
    obtain fr f1 where sp: "shouldProcessAddress lib (addressFilter w) (a i) = (fr, f1)"
      by (cases "shouldProcessAddress lib (addressFilter w) (a i)")
    from shouldProcessAddress_decision [OF p, of lib "a i"] sp
    have fr: "fr = fst (shouldProcessAddress lib (addressFilter w0) (a i))"
      by simp
    from tr Queued have g: "G i (disk w)" by (simp add: track_def)
    then have fd: "faulty (disk w) = faulty (disk w0)" by (simp add: G_def)
    show ?thesis
    proof (cases "shouldProcess fr")
      case True
      with st Queued sp have "t1 = AwaitPathExists" "disk w1 = disk w" by auto
      with g True fr show ?thesis by (simp add: track_def keep_def)
    next
      case False
      with st Queued sp have t1: "t1 = Done \<lparr>address = a i, success = True,
                    error = Some (''Filtered: '' @ (case skipReason fr of
                                                     Some reason \<Rightarrow> reason
                                                   | None \<Rightarrow> ''undefined'')),
                    skipped = Some True, filePath = None\<rparr>"
        by auto
      from False fr have "\<not> keep i" by (simp add: keep_def)
      with out_eq [OF fd, of i] t1 fr g show ?thesis
        by (auto simp: track_def)
    qed
  next
    case AwaitPathExists
    from tr AwaitPathExists have k: "keep i" and g: "G i (disk w)"
      by (simp_all add: track_def)
    then have fd: "faulty (disk w) = faulty (disk w0)" by (simp add: G_def)
    show ?thesis
    proof (cases "fs_pathExists (disk w) (tgt i)")
      case True
      with st AwaitPathExists
      have "t1 = Done \<lparr>address = a i, success = True, error = None,
                        skipped = Some True, filePath = None\<rparr>"
        by (auto simp: contractFileExists_def tgt_def)
      with out_eq [OF fd, of i] k True g show ?thesis
        by (auto simp: track_def)
    next
      case False
      with st AwaitPathExists have "t1 = AwaitInspect"
        by (auto simp: contractFileExists_def tgt_def)
      with k g False show ?thesis by (auto simp: track_def)
    qed
  next
    case AwaitInspect
    from tr AwaitInspect obtain d where
      g: "G i d" and k: "keep i" and ne: "\<not> fs_pathExists d (tgt i)"
      by (auto simp: track_def)
    then have fd: "faulty d = faulty (disk w0)" by (simp add: G_def)
    show ?thesis
    proof (cases "inspectContract net (a i)")
      case (Inl msg)
      with st AwaitInspect
      have "t1 = Done \<lparr>address = a i, success = False, error = Some msg,
                        skipped = None, filePath = None\<rparr>"
        by auto
      with out_eq [OF fd, of i] k ne g Inl show ?thesis
        by (auto simp: track_def)
    next
      case (Inr c)
      with st AwaitInspect have "t1 = AwaitMkdir c" by auto
      with k g ne Inr show ?thesis by (auto simp: track_def)
    qed
  next
    case (AwaitMkdir c)
    from tr AwaitMkdir obtain d where
      g: "G i d" and k: "keep i" and ne: "\<not> fs_pathExists d (tgt i)"
      and ic: "inspectContract net (a i) = Inr c"
      by (auto simp: track_def)
    then have fd: "faulty d = faulty (disk w0)" by (simp add: G_def)
    show ?thesis
    proof (cases "ensureDirectoryExists (disk w) (dir i)")
      case (Inl err)
      then have e: "faulty (disk w0) (dir i) = Some err" "fst err \<noteq> ''EEXIST''"
        using f by (simp_all add: ensureDirectoryExists_Inl)
      then have "\<not> mkdir_ok i" unfolding mkdir_ok_def by blast
      moreover from st AwaitMkdir Inl have "t1 = Done (save_failed (a i) err)"
        by (auto simp: dir_def)
      ultimately show ?thesis
        using out_eq [OF fd, of i] k ne g ic e by (auto simp: track_def)
    next
      case (Inr d1)
      from ensureDirectoryExists_Inr [OF Inr] f have "mkdir_ok i"
        by (auto simp: mkdir_ok_def split: option.splits)
      moreover from st AwaitMkdir Inr have "t1 = AwaitOpen c"
        by (auto simp: dir_def)
      ultimately show ?thesis
        using k g ne ic by (auto simp: track_def)
    qed
  next
    case (AwaitOpen c)
    from tr AwaitOpen obtain d where
      g: "G i d" and k: "keep i" and ne: "\<not> fs_pathExists d (tgt i)"
      and ic: "inspectContract net (a i) = Inr c" and mk: "mkdir_ok i"
      by (auto simp: track_def)
    then have fd: "faulty d = faulty (disk w0)" by (simp add: G_def)
    show ?thesis
    proof (cases "perform (OpOpenTrunc (tgt i)) (disk w)")
      case (Inl err)
      then have e: "faulty (disk w0) (tgt i) = Some err"
        using f by (simp add: perform_Inl)
      from st AwaitOpen Inl have "t1 = Done (save_failed (a i) err)"
        by (auto simp: tgt_def)
      then show ?thesis
        using out_eq [OF fd, of i] k ne g ic e mk by (auto simp: track_def)
    next
      case (Inr d1)
      from perform_Inr_faulty [OF Inr] f have "open_ok i"
        by (auto simp: open_ok_def)
      moreover from st AwaitOpen Inr have "t1 = AwaitWrite c"
        by (auto simp: tgt_def)
      ultimately show ?thesis
        using k g ne ic mk by (auto simp: track_def)
    qed
  next
    case (AwaitWrite c)
    from tr AwaitWrite obtain d where
      g: "G i d" and k: "keep i" and ne: "\<not> fs_pathExists d (tgt i)"
      and ic: "inspectContract net (a i) = Inr c" and mk: "mkdir_ok i" and ok: "open_ok i"
      by (auto simp: track_def)
    then have fd: "faulty d = faulty (disk w0)" by (simp add: G_def)
    show ?thesis
    proof (cases "perform (OpWrite (tgt i) (JSON_stringify lib c)) (disk w)")
      case (Inl err)
      then have e: "faulty (disk w0) (tgt i) = Some err"
        using f by (simp add: perform_Inl)
      from st AwaitWrite Inl have "t1 = Done (save_failed (a i) err)"
        by (auto simp: tgt_def)
      then show ?thesis
        using out_eq [OF fd, of i] k ne g ic e mk by (auto simp: track_def)
    next
      case (Inr d1)
      from perform_Inr_faulty [OF Inr] f ok have e: "faulty (disk w0) (tgt i) = None"
        by (cases "faulty (disk w0) (tgt i)") (auto simp: open_ok_def)
      from st AwaitWrite Inr
      have "t1 = Done \<lparr>address = a i, success = True, error = None, skipped = None,
                        filePath = Some (tgt i)\<rparr>"
        by (auto simp: tgt_def)
      then show ?thesis
        using out_eq [OF fd, of i] k ne g ic e mk by (auto simp: track_def)
    qed
  next
    case (Done r)
    with st tr show ?thesis by (auto simp: track_def)
  qed

  have other: "track k t (disk w1)"
    if tr: "track k t (disk w)"
      and st: "task_step config lib net (a i) s w = (s1, w1)"
      and ik: "i \<noteq> k" "i < length accounts"
    for i k s s1 t w w1
  proof -
    from task_step_effect [OF st]
    have fd: "faulty (disk w1) = faulty (disk w)"
      and ex: "\<forall>q. q \<noteq> dir i \<and> q \<noteq> tgt i
                  \<longrightarrow> fs_pathExists (disk w1) q = fs_pathExists (disk w) q"
      by (simp_all add: dir_def tgt_def)
    have "G k (disk w1)" if g: "G k (disk w)"
    proof -
      have "fs_pathExists (disk w1) (tgt k) = fs_pathExists (disk w0) (tgt k)"
        if u: "undisturbed config lib accounts k"
      proof -
        from undisturbed_paths [OF u ik(2) ik(1)] have "tgt k \<noteq> tgt i" "tgt k \<noteq> dir i"
          by (simp_all add: tgt_def dir_def a_def)
        with ex have "fs_pathExists (disk w1) (tgt k) = fs_pathExists (disk w) (tgt k)"
          by simp
        with g u show ?thesis by (simp add: G_def)
      qed
      with g fd show ?thesis by (simp add: G_def)
    qed
    with tr show ?thesis
      by (cases t) (auto simp: track_def)
  qed

  have "I (fst run) (snd run)"
    unfolding run_def
  proof (rule run_batch_invariant [where I = I], goal_cases)
    case 1
    show ?case
      by (simp add: I_def track_def G_def)
  next
    case (2 ts w i ts1 w1)
    from 2(1) have l: "length ts = length accounts"
      and f: "faulty (disk w) = faulty (disk w0)"
      and p: "customSkipPatterns (addressFilter w) = customSkipPatterns (addressFilter w0)"
      and tr: "\<forall>k < length accounts. track k (ts ! k) (disk w)"
      by (simp_all add: I_def)
    from can_move_not_returned [OF 2(2)] l have i: "i < length accounts" by simp
    from move_world [OF 2(3)] obtain t w2 where
      st: "task_step config lib net (a i) (ts ! i) w = (t, w2)"
      and ts1: "ts1 = ts[i := t]"
      and d: "disk w1 = disk w2" and af: "addressFilter w1 = addressFilter w2"
      by (auto simp: a_def)
    from task_step_effect [OF st] d af f p
    have f1: "faulty (disk w1) = faulty (disk w0)"
      and p1: "customSkipPatterns (addressFilter w1) = customSkipPatterns (addressFilter w0)"
      by simp_all
    have "track k (ts1 ! k) (disk w1)" if k: "k < length accounts" for k
    proof (cases "k = i")
      case True
      from tr i have "track i (ts ! i) (disk w)" by simp
      from step [OF this f p st] True ts1 i l d show ?thesis by simp
    next
      case False
      from tr k have "track k (ts ! k) (disk w)" by simp
      from other [OF this st] False i ts1 d show ?thesis by simp
    qed
    with ts1 l f1 p1 show ?case by (simp add: I_def)
  next
    case (3 ts w decisions)
    then show ?case by (simp add: I_def)
  qed
  then show ?thesis
    by (auto simp: I_def track_def G_def out_def tgt_def a_def)
qed


text \<open>The file of every task that has returned a path is on the disk.\<close>

lemma task_step_files:
  assumes "task_step config lib net a t w = (t1, w1)"
  shows "(\<forall>p. files (disk w) p \<noteq> None \<longrightarrow> files (disk w1) p \<noteq> None)
       \<and> (\<not> returned t \<longrightarrow> (\<forall>r p. t1 = Done r \<and> filePath r = Some p \<longrightarrow>
                                   files (disk w1) p \<noteq> None))"
proof (cases t)
  case Queued
  with assms show ?thesis
    by (auto split: prod.splits if_splits)
next
  case AwaitPathExists
  with assms show ?thesis by (auto split: if_splits)
next
  case AwaitInspect
  with assms show ?thesis by (auto split: sum.splits)
next
  case (AwaitMkdir c)
  with assms show ?thesis
    by (auto simp: save_failed_def dest: ensureDirectoryExists_Inr split: sum.splits)
next
  case (AwaitOpen c)
  with assms show ?thesis
    by (auto simp: save_failed_def dest!: perform_Inr split: sum.splits)
next
  case (AwaitWrite c)
  with assms show ?thesis
    by (auto simp: save_failed_def dest!: perform_Inr split: sum.splits)
next
  case (Done r)
  with assms show ?thesis by auto
qed

lemma run_batch_files:
  fixes config :: IndexerConfig and lib :: "('d, 'x) Platform_scheme"
    and net :: "('d, 'y) Clients_scheme" and accounts :: "AccountNode list" and w0 :: World
  defines "run \<equiv> run_batch config lib net accounts (replicate (length accounts) Queued) w0"
  shows "\<forall>i < length accounts. \<forall>r p. fst run ! i = Done r \<and> filePath r = Some p \<longrightarrow>
           files (disk (snd run)) p \<noteq> None"
proof -
  define I where "I = (\<lambda>(ts :: 'd task list) (w :: World).
       length ts = length accounts
     \<and> (\<forall>i < length accounts. \<forall>r p. ts ! i = Done r \<and> filePath r = Some p \<longrightarrow>
           files (disk w) p \<noteq> None))"
  have "I (fst run) (snd run)"
    unfolding run_def
  proof (rule run_batch_invariant [where I = I], goal_cases)
    case 1
    show ?case by (simp add: I_def)
  next
    case (2 ts w i ts1 w1)
    from 2(1) have l: "length ts = length accounts"
      and fl: "\<forall>k < length accounts. \<forall>r p. ts ! k = Done r \<and> filePath r = Some p \<longrightarrow>
                 files (disk w) p \<noteq> None"
      unfolding I_def by blast+
    from can_move_not_returned [OF 2(2)] l
    have i: "i < length accounts" and nr: "\<not> returned (ts ! i)"
      by simp_all
    from move_world [OF 2(3)] obtain t w2 where
      st: "task_step config lib net (rawAddress (accounts ! i)) (ts ! i) w = (t, w2)"
      and ts1: "ts1 = ts[i := t]" and d: "disk w1 = disk w2"
      by auto
    from task_step_files [OF st] nr d
    have grow: "\<forall>p. files (disk w) p \<noteq> None \<longrightarrow> files (disk w1) p \<noteq> None"
      and new: "\<forall>r p. t = Done r \<and> filePath r = Some p \<longrightarrow> files (disk w1) p \<noteq> None"
      by metis+
    have "files (disk w1) p \<noteq> None"
      if k: "k < length accounts" and r: "ts1 ! k = Done r" "filePath r = Some p" for k r p
    proof (cases "k = i")
      case True
      with r ts1 i l have "t = Done r" by simp
      with new r show ?thesis by blast
    next
      case False
      with r ts1 have "ts ! k = Done r" by simp
      with fl k r grow show ?thesis by blast
    qed
    moreover from ts1 l have "length ts1 = length accounts" by simp
    ultimately show ?case unfolding I_def by blast
  next
    case (3 ts w decisions)
    have "disk (w\<lparr>scheduler := decisions\<rparr>) = disk w" by simp
    with 3 show ?case unfolding I_def by metis
  qed
  then show ?thesis unfolding I_def by blast
qed

lemma processAccount_failed:
  "fst (processAccount_try config lib net w a) = Inl msg \<Longrightarrow>
     fst (processAccount config lib net w a)
       = \<lparr>address = a, success = False, error = Some msg, skipped = None, filePath = None\<rparr>"
  by (cases "processAccount_try config lib net w a") (simp add: processAccount_def Let_def)

lemma processAccount_try_fetch_fails:
  assumes "shouldProcess (fst (shouldProcessAddress lib (addressFilter w) a))"
      and "\<not> contractFileExists lib (disk w) (dataDirectory config) a None"
      and "inspectContract net a = Inl msg"
  shows "fst (processAccount_try config lib net w a) = Inl msg"
  using assms
  by (cases "shouldProcessAddress lib (addressFilter w) a")
     (simp add: processAccount_try_def Let_def)

lemma processAccount_try_save_fails:
  assumes "shouldProcess (fst (shouldProcessAddress lib (addressFilter w) a))"
      and "\<not> contractFileExists lib (disk w) (dataDirectory config) a None"
      and "inspectContract net a = Inr payload"
      and "fst (saveContractData lib (disk w) (dataDirectory config) a payload None) = Inl msg"
  shows "fst (processAccount_try config lib net w a) = Inl msg"
  using assms
  by (cases "shouldProcessAddress lib (addressFilter w) a";
      cases "saveContractData lib (disk w) (dataDirectory config) a payload None")
     (simp add: processAccount_try_def Let_def)

text \<open>
  Claim C7. Whatever fails and however the tasks are scheduled, with
  \<open>maxConcurrentRequests\<close> at least 1, the batch returns one result for every identifier
  of the page, in the order of the page, and the result of each identifier is its own:
  it is the result that \<open>processAccount\<close> gives for that identifier on a disk with the
  same faults, and exactly the result that \<open>processAccount\<close> gives for it on the disk the
  batch started on when no other task of the page works at the path of its file. The
  file of every result that carries a path is on the disk when the batch ends. For one
  identifier: when the \<open>try\<close> block of \<open>processAccount\<close> throws, the method returns the
  failed outcome with the message thrown; the block throws with the client's message
  when the detail cannot be fetched, and with the message of \<open>saveContractData\<close> when the
  snapshot cannot be stored.
\<close>

theorem failure_leaves_every_other_outcome:
  assumes lim: "1 \<le> maxConcurrentRequests config"
  shows
   "length (fst (processAccountsBatch config lib net w accounts)) = length accounts
   \<and> (\<forall>i < length accounts. \<exists>d.
         faulty d = faulty (disk w)
       \<and> fst (processAccountsBatch config lib net w accounts) ! i
           = fst (processAccount config lib net (w\<lparr>disk := d\<rparr>) (rawAddress (accounts ! i))))
   \<and> (\<forall>i < length accounts. undisturbed config lib accounts i \<longrightarrow>
         fst (processAccountsBatch config lib net w accounts) ! i
           = fst (processAccount config lib net w (rawAddress (accounts ! i))))
   \<and> (\<forall>i < length accounts. \<forall>p.
         filePath (fst (processAccountsBatch config lib net w accounts) ! i) = Some p \<longrightarrow>
         files (disk (snd (processAccountsBatch config lib net w accounts))) p \<noteq> None)
   \<and> (fst (processAccount_try config lib net w a) = Inl msg \<longrightarrow>
         fst (processAccount config lib net w a)
           = \<lparr>address = a, success = False, error = Some msg, skipped = None, filePath = None\<rparr>)
   \<and> (shouldProcess (fst (shouldProcessAddress lib (addressFilter w) a))
       \<and> \<not> contractFileExists lib (disk w) (dataDirectory config) a None
       \<and> inspectContract net a = Inl msg \<longrightarrow>
         fst (processAccount config lib net w a)
           = \<lparr>address = a, success = False, error = Some msg, skipped = None, filePath = None\<rparr>)
   \<and> (shouldProcess (fst (shouldProcessAddress lib (addressFilter w) a))
       \<and> \<not> contractFileExists lib (disk w) (dataDirectory config) a None
       \<and> inspectContract net a = Inr payload
       \<and> fst (saveContractData lib (disk w) (dataDirectory config) a payload None) = Inl msg \<longrightarrow>
         fst (processAccount config lib net w a)
           = \<lparr>address = a, success = False, error = Some msg, skipped = None, filePath = None\<rparr>)"
proof -
  let ?run = "run_batch config lib net accounts (replicate (length accounts) Queued) w"
  let ?results = "fst (processAccountsBatch config lib net w accounts)"
  have b: "processAccountsBatch config lib net w accounts = (results_of (fst ?run), snd ?run)"
    by (cases ?run) (simp add: processAccountsBatch_def)
  from run_batch_all_returned [OF lim]
  have "list_all returned (fst ?run)" .
  from results_of_returned [OF this] have ts: "fst ?run = map Done ?results"
    using b by simp
  from run_batch_outcomes [of config lib net accounts w]
  have l: "length (fst ?run) = length accounts"
    and o: "\<forall>i < length accounts. \<forall>r. fst ?run ! i = Done r \<longrightarrow>
          (\<exists>d. faulty d = faulty (disk w)
              \<and> (undisturbed config lib accounts i \<longrightarrow>
                   fs_pathExists d (getFilePath lib (rawAddress (accounts ! i))
                                      (dataDirectory config) None)
                     = fs_pathExists (disk w) (getFilePath lib (rawAddress (accounts ! i))
                                                  (dataDirectory config) None))
              \<and> r = fst (processAccount config lib net (w\<lparr>disk := d\<rparr>)
                            (rawAddress (accounts ! i))))"
    by blast+
  from l ts have one: "length ?results = length accounts"
    by (metis length_map)
  have nth: "fst ?run ! i = Done (?results ! i)" if "i < length accounts" for i
    using that one ts by (metis nth_map)
  have two: "\<forall>i < length accounts. \<exists>d.
         faulty d = faulty (disk w)
       \<and> ?results ! i
           = fst (processAccount config lib net (w\<lparr>disk := d\<rparr>) (rawAddress (accounts ! i)))"
    using o nth by blast
  have three: "\<forall>i < length accounts. undisturbed config lib accounts i \<longrightarrow>
         ?results ! i = fst (processAccount config lib net w (rawAddress (accounts ! i)))"
  proof (intro allI impI)
    fix i assume i: "i < length accounts" and u: "undisturbed config lib accounts i"
    from o i nth [OF i] u obtain d where
      f: "faulty d = faulty (disk w)"
      and e: "fs_pathExists d (getFilePath lib (rawAddress (accounts ! i))
                                 (dataDirectory config) None)
                = fs_pathExists (disk w) (getFilePath lib (rawAddress (accounts ! i))
                                            (dataDirectory config) None)"
      and r: "?results ! i
                = fst (processAccount config lib net (w\<lparr>disk := d\<rparr>) (rawAddress (accounts ! i)))"
      by blast
    have "fst (processAccount config lib net (w\<lparr>disk := d\<rparr>) (rawAddress (accounts ! i)))
            = fst (processAccount config lib net w (rawAddress (accounts ! i)))"
      by (rule processAccount_result_cong) (simp_all add: f e)
    with r show "?results ! i = fst (processAccount config lib net w (rawAddress (accounts ! i)))"
      by simp
  qed
  have four: "\<forall>i < length accounts. \<forall>p.
         filePath (?results ! i) = Some p \<longrightarrow>
         files (disk (snd (processAccountsBatch config lib net w accounts))) p \<noteq> None"
    using run_batch_files [of accounts config lib net w] nth b by simp
  have five: "fst (processAccount_try config lib net w a) = Inl msg \<longrightarrow>
         fst (processAccount config lib net w a)
           = \<lparr>address = a, success = False, error = Some msg, skipped = None, filePath = None\<rparr>"
    using processAccount_failed [of config lib net w a msg] by blast
  have six: "shouldProcess (fst (shouldProcessAddress lib (addressFilter w) a))
       \<and> \<not> contractFileExists lib (disk w) (dataDirectory config) a None
       \<and> inspectContract net a = Inl msg \<longrightarrow>
         fst (processAccount config lib net w a)
           = \<lparr>address = a, success = False, error = Some msg, skipped = None, filePath = None\<rparr>"
    using processAccount_try_fetch_fails [of lib w a config net msg]
          processAccount_failed [of config lib net w a msg]
    by blast
  have seven: "shouldProcess (fst (shouldProcessAddress lib (addressFilter w) a))
       \<and> \<not> contractFileExists lib (disk w) (dataDirectory config) a None
       \<and> inspectContract net a = Inr payload
       \<and> fst (saveContractData lib (disk w) (dataDirectory config) a payload None) = Inl msg \<longrightarrow>
         fst (processAccount config lib net w a)
           = \<lparr>address = a, success = False, error = Some msg, skipped = None, filePath = None\<rparr>"
    using processAccount_try_save_fails [of lib w a config net payload msg]
          processAccount_failed [of config lib net w a msg]
    by blast
  from one two three four five six seven show ?thesis by blast
qed


text \<open>
  The page of three accounts: the detail of the second cannot be fetched, and on the
  faulty disk the file of the third cannot be opened; under the interleaving scheduler
  the third fails first, and the first is saved all the same.
\<close>

theorem failure_leaves_every_other_outcome_witness:
  "1 \<le> maxConcurrentRequests example_config
   \<and> fst (processAccountsBatch example_config example_lib example_net faulty_world
          [\<lparr>rawAddress = ''0:aaaaaaaaaaaa''\<rparr>, \<lparr>rawAddress = ''0:bbbbbbbbbbbb''\<rparr>,
           \<lparr>rawAddress = ''0:cccccccccccc''\<rparr>])
     = [\<lparr>address = ''0:aaaaaaaaaaaa'', success = True, error = None, skipped = None,
         filePath = Some ''data/dc/ed/inspect_0_aaaaaaaaaaaa.json''\<rparr>,
        \<lparr>address = ''0:bbbbbbbbbbbb'', success = False,
         error = Some ''API error (500): HTTP 500'', skipped = None, filePath = None\<rparr>,
        \<lparr>address = ''0:cccccccccccc'', success = False,
         error = Some ''Failed to save contract data for 0:cccccccccccc: Error: EACCES: permission denied, open data/57/9c/inspect_0_cccccccccccc.json'',
         skipped = None, filePath = None\<rparr>]
   \<and> undisturbed example_config example_lib
         [\<lparr>rawAddress = ''0:aaaaaaaaaaaa''\<rparr>, \<lparr>rawAddress = ''0:bbbbbbbbbbbb''\<rparr>,
          \<lparr>rawAddress = ''0:cccccccccccc''\<rparr>] 0
   \<and> fst (processAccount example_config example_lib example_net faulty_world ''0:aaaaaaaaaaaa'')
       = \<lparr>address = ''0:aaaaaaaaaaaa'', success = True, error = None, skipped = None,
          filePath = Some ''data/dc/ed/inspect_0_aaaaaaaaaaaa.json''\<rparr>
   \<and> files (disk (snd (processAccountsBatch example_config example_lib example_net faulty_world
          [\<lparr>rawAddress = ''0:aaaaaaaaaaaa''\<rparr>, \<lparr>rawAddress = ''0:bbbbbbbbbbbb''\<rparr>,
           \<lparr>rawAddress = ''0:cccccccccccc''\<rparr>])))
         ''data/dc/ed/inspect_0_aaaaaaaaaaaa.json'' \<noteq> None
   \<and> inspectContract example_net ''0:bbbbbbbbbbbb'' = Inl ''API error (500): HTTP 500''
   \<and> fst (processAccount example_config example_lib example_net faulty_world ''0:bbbbbbbbbbbb'')
       = \<lparr>address = ''0:bbbbbbbbbbbb'', success = False,
          error = Some ''API error (500): HTTP 500'', skipped = None, filePath = None\<rparr>
   \<and> inspectContract example_net ''0:cccccccccccc'' = Inr ()
   \<and> fst (saveContractData example_lib (disk faulty_world) (dataDirectory example_config)
            ''0:cccccccccccc'' () None)
       = Inl ''Failed to save contract data for 0:cccccccccccc: Error: EACCES: permission denied, open data/57/9c/inspect_0_cccccccccccc.json''
   \<and> fst (processAccount example_config example_lib example_net faulty_world ''0:cccccccccccc'')
       = \<lparr>address = ''0:cccccccccccc'', success = False,
          error = Some ''Failed to save contract data for 0:cccccccccccc: Error: EACCES: permission denied, open data/57/9c/inspect_0_cccccccccccc.json'',
          skipped = None, filePath = None\<rparr>"
proof -
  let ?page = "[\<lparr>rawAddress = ''0:aaaaaaaaaaaa''\<rparr>, \<lparr>rawAddress = ''0:bbbbbbbbbbbb''\<rparr>,
                \<lparr>rawAddress = ''0:cccccccccccc''\<rparr>]"
  let ?batch = "processAccountsBatch example_config example_lib example_net faulty_world ?page"
  let ?saved = "\<lparr>address = ''0:aaaaaaaaaaaa'', success = True, error = None, skipped = None,
                  filePath = Some ''data/dc/ed/inspect_0_aaaaaaaaaaaa.json''\<rparr>"
  have lim: "1 \<le> maxConcurrentRequests example_config"
    by code_simp
  have batch: "fst ?batch
     = [?saved,
        \<lparr>address = ''0:bbbbbbbbbbbb'', success = False,
         error = Some ''API error (500): HTTP 500'', skipped = None, filePath = None\<rparr>,
        \<lparr>address = ''0:cccccccccccc'', success = False,
         error = Some ''Failed to save contract data for 0:cccccccccccc: Error: EACCES: permission denied, open data/57/9c/inspect_0_cccccccccccc.json'',
         skipped = None, filePath = None\<rparr>]"
    by code_simp
  have alone: "undisturbed example_config example_lib ?page 0"
    by code_simp
  have keep_b: "shouldProcess (fst (shouldProcessAddress example_lib (addressFilter faulty_world)
                                     ''0:bbbbbbbbbbbb''))"
    by code_simp
  have new_b: "\<not> contractFileExists example_lib (disk faulty_world) (dataDirectory example_config)
                  ''0:bbbbbbbbbbbb'' None"
    by code_simp
  have fetch_b: "inspectContract example_net ''0:bbbbbbbbbbbb'' = Inl ''API error (500): HTTP 500''"
    by code_simp
  have keep_c: "shouldProcess (fst (shouldProcessAddress example_lib (addressFilter faulty_world)
                                     ''0:cccccccccccc''))"
    by code_simp
  have new_c: "\<not> contractFileExists example_lib (disk faulty_world) (dataDirectory example_config)
                  ''0:cccccccccccc'' None"
    by code_simp
  have fetch_c: "inspectContract example_net ''0:cccccccccccc'' = Inr ()"
    by code_simp
  have save_c: "fst (saveContractData example_lib (disk faulty_world) (dataDirectory example_config)
            ''0:cccccccccccc'' () None)
       = Inl ''Failed to save contract data for 0:cccccccccccc: Error: EACCES: permission denied, open data/57/9c/inspect_0_cccccccccccc.json''"
    by code_simp
  note b = failure_leaves_every_other_outcome
    [OF lim, of example_lib example_net faulty_world ?page "''0:bbbbbbbbbbbb''"
       "''API error (500): HTTP 500''" "()"]
  note c = failure_leaves_every_other_outcome
    [OF lim, of example_lib example_net faulty_world ?page "''0:cccccccccccc''"
       "''Failed to save contract data for 0:cccccccccccc: Error: EACCES: permission denied, open data/57/9c/inspect_0_cccccccccccc.json''" "()"]
  from b have three: "\<forall>i < length ?page. undisturbed example_config example_lib ?page i \<longrightarrow>
         fst ?batch ! i
           = fst (processAccount example_config example_lib example_net faulty_world
                    (rawAddress (?page ! i)))"
    by blast
  have "0 < length ?page" by simp
  with three alone
  have "fst ?batch ! 0
          = fst (processAccount example_config example_lib example_net faulty_world
                   (rawAddress (?page ! 0)))"
    by blast
  with batch
  have res_a: "fst (processAccount example_config example_lib example_net faulty_world
                      ''0:aaaaaaaaaaaa'') = ?saved"
    by simp
  from b have four: "\<forall>i < length ?page. \<forall>p.
         filePath (fst ?batch ! i) = Some p \<longrightarrow> files (disk (snd ?batch)) p \<noteq> None"
    by blast
  have "filePath (fst ?batch ! 0) = Some ''data/dc/ed/inspect_0_aaaaaaaaaaaa.json''"
    unfolding batch by simp
  with four \<open>0 < length ?page\<close>
  have file_a: "files (disk (snd ?batch)) ''data/dc/ed/inspect_0_aaaaaaaaaaaa.json'' \<noteq> None"
    by blast
  from b keep_b new_b fetch_b
  have res_b: "fst (processAccount example_config example_lib example_net faulty_world ''0:bbbbbbbbbbbb'')
       = \<lparr>address = ''0:bbbbbbbbbbbb'', success = False,
          error = Some ''API error (500): HTTP 500'', skipped = None, filePath = None\<rparr>"
    by blast
  from c keep_c new_c fetch_c save_c
  have res_c: "fst (processAccount example_config example_lib example_net faulty_world ''0:cccccccccccc'')
       = \<lparr>address = ''0:cccccccccccc'', success = False,
          error = Some ''Failed to save contract data for 0:cccccccccccc: Error: EACCES: permission denied, open data/57/9c/inspect_0_cccccccccccc.json'',
          skipped = None, filePath = None\<rparr>"
    by blast
  from lim batch alone res_a file_a fetch_b res_b fetch_c save_c res_c show ?thesis
    by blast
qed

section \<open>Properties of runComplete\<close>

lemma js_trim_c1: "js_trim ''c1'' = ''c1''"
  by code_simp

lemma readCursor_parked: "parked w \<Longrightarrow> readCursor (disk w) ''cursor.txt'' = Inr (Some ''c1'')"
  by (simp add: parked_def readCursor_def fs_pathExists_def fs_readFile_def js_trim_c1)

lemma runIteration_parked:
  assumes "parked w"
  shows "\<exists>w'. runIteration example_config example_lib example_net w = (Inr empty_iteration, w')
               \<and> parked w'"
proof -
  from assms have f: "faulty (disk w) ''data'' = None"
    by (simp add: parked_def)
  let ?d1 = "(apply_op (disk w) (OpMkdir ''data''))\<lparr>journal := journal (disk w) @ [OpMkdir ''data'']\<rparr>"
  have e: "ensureDataDirectory (disk w) ''data'' = (Inr (), ?d1)"
    using f by (simp add: ensureDataDirectory_def fs_mkdir_recursive_def perform_def)
  have p1: "parked (put_disk w ?d1)"
    using assms by (simp add: parked_def put_disk_def)
  have r: "readCursor (disk (put_disk w ?d1)) ''cursor.txt'' = Inr (Some ''c1'')"
    using readCursor_parked [OF p1] by simp
  show ?thesis
    using e r p1
    by (simp add: runIteration_def example_config_def example_net_def empty_iteration_def)
qed

lemma runComplete_loop_parked:
  "parked w \<Longrightarrow>
     \<exists>w'. runComplete_loop n example_config example_lib example_net True its w
            = ((OutOfFuel, its @ replicate n empty_iteration), w')"
proof (induction n arbitrary: its w)
  case 0
  then show ?case by simp
next
  case (Suc n)
  from runIteration_parked [OF Suc.prems] obtain w1 where
    it: "runIteration example_config example_lib example_net w = (Inr empty_iteration, w1)"
    and p: "parked w1"
    by blast
  have rc: "readCursor (disk w1) (cursorFilePath example_config) = Inr (Some ''c1'')"
    using readCursor_parked [OF p] by (simp add: example_config_def)
  from Suc.IH [OF p, of "its @ [empty_iteration]"] show ?case
    using it rc by simp
qed

text \<open>
  On a restart with the cursor of the last page in the cursor file, every iteration
  reports \<open>hasNextPage = false\<close> and the loop is never left: whatever the fuel, all of
  it is used up.
\<close>

lemma runComplete_resumed_never_leaves:
  "fst (runComplete n example_config example_lib example_net resumed_world)
     = (OutOfFuel, replicate n empty_iteration)"
proof -
  have "parked resumed_world"
    by (simp add: parked_def resumed_world_def empty_disk_def)
  from runComplete_loop_parked [OF this, of n "[]"] show ?thesis
    by (auto simp: runComplete_def)
qed

text \<open>
  Claim C6. The source has a single page, which it reports with \<open>hasNextPage = false\<close>
  and the cursor \<open>c1\<close>. Started on an empty disk, \<open>runComplete\<close> runs a first iteration
  whose result has \<open>hasNextPage = false\<close>, and then starts a second and a third one: the
  loop only reads the cursor file back, which now holds \<open>c1\<close>. After three iterations
  the loop has still not been left.
\<close>

theorem runComplete_continues_after_last_page:
  "map hasNextPage_ir
     (snd (fst (runComplete 3 example_config example_lib example_net example_world)))
     = [False, False, False]
   \<and> fst (fst (runComplete 3 example_config example_lib example_net example_world)) = OutOfFuel
   \<and> readCursor
        (disk (snd (runIteration example_config example_lib example_net example_world)))
        (cursorFilePath example_config) = Inr (Some ''c1'')"
  by code_simp

end
